theory Spec2Isabelle
  imports Main "HOL-Library.Char_ord" "HOL-Library.List_Lexorder"
begin

section \<open>Posting-state synchronisation: \<^verbatim>\<open>scripts/sync/state_manager.py\<close>\<close>

text \<open>
  The snapshot is a Python dict with four families of keys:
  \<^item> \<^verbatim>\<open>posted_<plural>\<close>: a list of item ids;
  \<^item> \<^verbatim>\<open>last_<singular>_posted\<close>: \<^verbatim>\<open>None\<close> or a dict with the string fields
    \<^verbatim>\<open>id\<close> and \<^verbatim>\<open>timestamp\<close>;
  \<^item> \<^verbatim>\<open>last_updated\<close>: a string;
  \<^item> \<^verbatim>\<open>cycle_count\<close>: a dict from plural category name to an integer.
  Each family is one field of the record below. A field that is a map is indexed by the
  category name that the key is built from, and \<open>None\<close> in the map says that the key
  is not in the dict. Timestamps stay strings and are compared as strings, as the code
  compares them.
\<close>

subsection \<open>Configuration (config/settings.py)\<close>

text \<open>
  \<^verbatim>\<open>CATEGORY_CONFIG\<close> in its source order, as (singular, plural, type); type
  \<open>True\<close> is \<^verbatim>\<open>'glossary'\<close>, \<open>False\<close> is \<^verbatim>\<open>'calendar'\<close>.
\<close>

definition CATEGORY_CONFIG :: "(string \<times> string \<times> bool) list" where
  "CATEGORY_CONFIG =
    [(''spell'', ''spells'', True),
     (''potion'', ''potions'', True),
     (''creature'', ''creatures'', True),
     (''object'', ''objects'', True),
     (''location'', ''locations'', True),
     (''organization'', ''organizations'', True),
     (''concept'', ''concepts'', True),
     (''character'', ''characters'', True),
     (''birthday'', ''birthdays'', False),
     (''deathday'', ''deathdays'', False),
     (''event'', ''events'', False)]"

text \<open>
  \<^verbatim>\<open>CATEGORY_CONFIG_PLURAL\<close>: the glossary entries, keyed by plural, each with its
  singular; kept as a list of (plural, singular) in dict order.
\<close>

definition CATEGORY_CONFIG_PLURAL :: "(string \<times> string) list" where
  "CATEGORY_CONFIG_PLURAL =
     map (\<lambda>(sg, pl, ty). (pl, sg)) (filter (\<lambda>(sg, pl, ty). ty) CATEGORY_CONFIG)"

definition plural_keys :: "string list" where
  "plural_keys = map fst CATEGORY_CONFIG_PLURAL"

definition singular_values :: "string list" where
  "singular_values = map snd CATEGORY_CONFIG_PLURAL"

definition GIST_API_MAX_RETRIES :: nat where
  "GIST_API_MAX_RETRIES = 3"

definition GIST_API_RETRY_DELAY :: int where
  "GIST_API_RETRY_DELAY = 1"

definition GIST_API_RETRY_BACKOFF :: int where
  "GIST_API_RETRY_BACKOFF = 2"

definition TIMESTAMP_PAST_TOLERANCE_YEARS :: int where
  "TIMESTAMP_PAST_TOLERANCE_YEARS = 1"

definition TIMESTAMP_FUTURE_TOLERANCE_MINUTES :: int where
  "TIMESTAMP_FUTURE_TOLERANCE_MINUTES = 5"

subsection \<open>The snapshot\<close>

record last_entry =
  entry_id :: "string option"
  entry_timestamp :: "string option"

record state =
  posted :: "string \<rightharpoonup> string list"
  last_posted :: "string \<rightharpoonup> last_entry option"
  last_updated :: "string option"
  cycle_count :: "(string \<rightharpoonup> int) option"

text \<open>The empty dict \<^verbatim>\<open>{}\<close>.\<close>

definition empty_state :: state where
  "empty_state =
     \<lparr>posted = Map.empty, last_posted = Map.empty, last_updated = None, cycle_count = None\<rparr>"

text \<open>Truthiness of a dict: \<^verbatim>\<open>not d\<close> holds exactly for the empty dict.\<close>

definition state_truthy :: "state \<Rightarrow> bool" where
  "state_truthy s \<longleftrightarrow>
     dom (posted s) \<noteq> {} \<or> dom (last_posted s) \<noteq> {} \<or> last_updated s \<noteq> None \<or>
     cycle_count s \<noteq> None"

definition entry_truthy :: "last_entry \<Rightarrow> bool" where
  "entry_truthy e \<longleftrightarrow> entry_id e \<noteq> None \<or> entry_timestamp e \<noteq> None"

text \<open>\<^verbatim>\<open>state.get(f"posted_{category}", [])\<close>\<close>

definition get_posted :: "state \<Rightarrow> string \<Rightarrow> string list" where
  "get_posted s c = (case posted s c of None \<Rightarrow> [] | Some xs \<Rightarrow> xs)"

text \<open>
  \<^verbatim>\<open>state.get(f"last_{category}_posted")\<close>: \<^verbatim>\<open>None\<close> for a missing key as for a
  stored null.
\<close>

definition get_last :: "state \<Rightarrow> string \<Rightarrow> last_entry option" where
  "get_last s c = (case last_posted s c of None \<Rightarrow> None | Some v \<Rightarrow> v)"

text \<open>\<^verbatim>\<open>state.get('last_updated', '')\<close>\<close>

definition get_last_updated :: "state \<Rightarrow> string" where
  "get_last_updated s = (case last_updated s of None \<Rightarrow> [] | Some t \<Rightarrow> t)"

text \<open>\<^verbatim>\<open>state.get('cycle_count', {}).get(category, 0)\<close>\<close>

definition get_count :: "state \<Rightarrow> string \<Rightarrow> int" where
  "get_count s c =
     (case cycle_count s of
        None \<Rightarrow> 0
      | Some cc \<Rightarrow> (case cc c of None \<Rightarrow> 0 | Some n \<Rightarrow> n))"

text \<open>\<^verbatim>\<open>last.get('timestamp', '')\<close>\<close>

definition get_timestamp :: "last_entry \<Rightarrow> string" where
  "get_timestamp e = (case entry_timestamp e of None \<Rightarrow> [] | Some t \<Rightarrow> t)"

subsection \<open>Fresh snapshot and migration\<close>

text \<open>
  \<^verbatim>\<open>_create_initial_state\<close>; the clock reading that becomes \<^verbatim>\<open>last_updated\<close> is the
  argument \<open>now\<close>.
\<close>

definition create_initial_state :: "string \<Rightarrow> state" where
  "create_initial_state now =
     \<lparr>posted = fold (\<lambda>c m. m(c \<mapsto> [])) plural_keys Map.empty,
      last_posted = fold (\<lambda>sg m. m(sg \<mapsto> None)) singular_values Map.empty,
      last_updated = Some now,
      cycle_count = Some (fold (\<lambda>c m. m(c \<mapsto> 0)) plural_keys Map.empty)\<rparr>"

text \<open>
  \<^verbatim>\<open>_migrate_state\<close>. The first loop visits every configured category and fills the
  two per-category keys when they are missing; then \<^verbatim>\<open>cycle_count\<close> is created when
  missing and the second loop fills its missing entries.
\<close>

definition migrate_keys :: "(string \<times> string) \<Rightarrow> state \<Rightarrow> state" where
  "migrate_keys cfg s =
     (let category = fst cfg; singular = snd cfg;
          s1 = (if posted s category = None
                then s\<lparr>posted := (posted s)(category \<mapsto> [])\<rparr> else s);
          s2 = (if last_posted s1 singular = None
                then s1\<lparr>last_posted := (last_posted s1)(singular \<mapsto> None)\<rparr> else s1)
      in s2)"

definition migrate_count :: "string \<Rightarrow> (string \<rightharpoonup> int) \<Rightarrow> (string \<rightharpoonup> int)" where
  "migrate_count category cc = (if cc category = None then cc(category \<mapsto> 0) else cc)"

definition migrate_state :: "state \<Rightarrow> state" where
  "migrate_state s =
     (let s1 = fold migrate_keys CATEGORY_CONFIG_PLURAL s;
          cc = (case cycle_count s1 of None \<Rightarrow> Map.empty | Some m \<Rightarrow> m)
      in s1\<lparr>cycle_count := Some (fold migrate_count plural_keys cc)\<rparr>)"

subsection \<open>Merging two snapshots\<close>

text \<open>
  Python's \<^verbatim>\<open>list(set1 | set2)\<close> lists the union in an order the language does not
  fix; the model lists it in order of first occurrence. Only the set of the result is
  used below.
\<close>

definition union_list :: "string list \<Rightarrow> string list \<Rightarrow> string list" where
  "union_list xs ys = remdups (xs @ ys)"

definition merge_posted :: "state \<Rightarrow> state \<Rightarrow> string \<Rightarrow> state \<Rightarrow> state" where
  "merge_posted state1 state2 category merged =
     merged\<lparr>posted := (posted merged)
       (category \<mapsto> union_list (get_posted state1 category) (get_posted state2 category))\<rparr>"

text \<open>
  The loop over \<^verbatim>\<open>last_*_posted\<close> assigns the local variables \<^verbatim>\<open>ts1\<close> and
  \<^verbatim>\<open>ts2\<close>, which also hold the two \<^verbatim>\<open>last_updated\<close> values read at the top of
  \<^verbatim>\<open>merge_states\<close>. The loop state is therefore the triple of the merged snapshot
  and both variables.
\<close>

definition merge_last ::
  "state \<Rightarrow> state \<Rightarrow> string \<Rightarrow> state \<times> string \<times> string \<Rightarrow> state \<times> string \<times> string" where
  "merge_last state1 state2 category acc =
     (case acc of (merged, ts1, ts2) \<Rightarrow>
        (case (get_last state1 category, get_last state2 category) of
           (Some last1, Some last2) \<Rightarrow>
             if entry_truthy last1 \<and> entry_truthy last2 then
               (let ts1' = get_timestamp last1; ts2' = get_timestamp last2
                in (merged\<lparr>last_posted := (last_posted merged)
                      (category \<mapsto> Some (if ts1' \<ge> ts2' then last1 else last2))\<rparr>,
                    ts1', ts2'))
             else if entry_truthy last1 then
               (merged\<lparr>last_posted := (last_posted merged)(category \<mapsto> Some last1)\<rparr>,
                ts1, ts2)
             else if entry_truthy last2 then
               (merged\<lparr>last_posted := (last_posted merged)(category \<mapsto> Some last2)\<rparr>,
                ts1, ts2)
             else (merged, ts1, ts2)
         | (Some last1, None) \<Rightarrow>
             if entry_truthy last1 then
               (merged\<lparr>last_posted := (last_posted merged)(category \<mapsto> Some last1)\<rparr>,
                ts1, ts2)
             else (merged, ts1, ts2)
         | (None, Some last2) \<Rightarrow>
             if entry_truthy last2 then
               (merged\<lparr>last_posted := (last_posted merged)(category \<mapsto> Some last2)\<rparr>,
                ts1, ts2)
             else (merged, ts1, ts2)
         | (None, None) \<Rightarrow> (merged, ts1, ts2)))"

text \<open>
  \<^verbatim>\<open>merged['cycle_count'][category] = max(count1, count2)\<close>: the dict assigned into
  is the one \<^verbatim>\<open>_create_initial_state\<close> has just built, so the key
  \<^verbatim>\<open>cycle_count\<close> is there.
\<close>

definition merge_count :: "state \<Rightarrow> state \<Rightarrow> string \<Rightarrow> state \<Rightarrow> state" where
  "merge_count state1 state2 category merged =
     (case cycle_count merged of
        None \<Rightarrow> merged
      | Some cc \<Rightarrow>
          merged\<lparr>cycle_count :=
            Some (cc(category \<mapsto> max (get_count state1 category) (get_count state2 category)))\<rparr>)"

text \<open>
  \<^verbatim>\<open>merge_states(state1, state2, prefer_newer)\<close>; \<open>now\<close> is the clock reading used
  by \<^verbatim>\<open>_create_initial_state\<close> and by the \<^verbatim>\<open>prefer_newer = False\<close> branch.
\<close>

definition merge_states :: "state \<Rightarrow> state \<Rightarrow> bool \<Rightarrow> string \<Rightarrow> state" where
  "merge_states state1 state2 prefer_newer now =
     (let merged0 = create_initial_state now;
          ts1_0 = get_last_updated state1;
          ts2_0 = get_last_updated state2;
          merged1 = fold (merge_posted state1 state2) plural_keys merged0;
          (merged2, ts1, ts2) =
             fold (merge_last state1 state2) singular_values (merged1, ts1_0, ts2_0);
          merged3 = fold (merge_count state1 state2) plural_keys merged2
      in if prefer_newer then
           merged3\<lparr>last_updated :=
             Some (if ts1 \<noteq> [] \<and> ts2 \<noteq> [] then max ts1 ts2
                   else if ts1 \<noteq> [] then ts1 else ts2)\<rparr>
         else merged3\<lparr>last_updated := Some now\<rparr>)"

subsection \<open>Comparing two snapshots\<close>

text \<open>
  The result dict of \<^verbatim>\<open>compare_states\<close>. \<open>timestamp_diff\<close> holds the two
  timestamps that the source formats into one message; \<open>posted_diff\<close> and
  \<open>cycle_diff\<close> are keyed by plural category name.
\<close>

record comparison =
  has_conflict :: bool
  timestamp_diff :: "(string \<times> string) option"
  posted_diff :: "string \<rightharpoonup> (string list \<times> string list)"
  cycle_diff :: "string \<rightharpoonup> (int \<times> int)"
  is_identical :: bool

text \<open>
  \<^verbatim>\<open>list(set1 - set2)\<close>, listed in order of first occurrence (the source's order is
  not fixed by the language; only emptiness and the set of the result are used).
\<close>

definition diff_list :: "string list \<Rightarrow> string list \<Rightarrow> string list" where
  "diff_list xs ys = remdups (filter (\<lambda>x. x \<notin> set ys) xs)"

text \<open>Truthiness of \<^verbatim>\<open>state.get('last_updated')\<close>: present and not the empty string.\<close>

definition str_truthy :: "string option \<Rightarrow> bool" where
  "str_truthy t = (case t of None \<Rightarrow> False | Some x \<Rightarrow> x \<noteq> [])"

definition compare_timestamp :: "state \<Rightarrow> state \<Rightarrow> comparison \<Rightarrow> comparison" where
  "compare_timestamp state1 state2 result =
     (case (last_updated state1, last_updated state2) of
        (Some ts1, Some ts2) \<Rightarrow>
          if ts1 \<noteq> [] \<and> ts2 \<noteq> [] then
            (if ts1 \<noteq> ts2
             then result\<lparr>timestamp_diff := Some (ts1, ts2), is_identical := False\<rparr>
             else result)
          else result
      | _ \<Rightarrow> result)"

definition compare_posted :: "state \<Rightarrow> state \<Rightarrow> string \<Rightarrow> comparison \<Rightarrow> comparison" where
  "compare_posted state1 state2 category result =
     (let only_in_1 = diff_list (get_posted state1 category) (get_posted state2 category);
          only_in_2 = diff_list (get_posted state2 category) (get_posted state1 category)
      in if only_in_1 \<noteq> [] \<or> only_in_2 \<noteq> [] then
           (let result1 = result\<lparr>posted_diff :=
                             (posted_diff result)(category \<mapsto> (only_in_1, only_in_2)),
                           is_identical := False\<rparr>
            in if only_in_1 \<noteq> [] \<and> only_in_2 \<noteq> []
               then result1\<lparr>has_conflict := True\<rparr> else result1)
         else result)"

definition compare_count :: "state \<Rightarrow> state \<Rightarrow> string \<Rightarrow> comparison \<Rightarrow> comparison" where
  "compare_count state1 state2 category result =
     (let count1 = get_count state1 category; count2 = get_count state2 category
      in if count1 \<noteq> count2
         then result\<lparr>cycle_diff := (cycle_diff result)(category \<mapsto> (count1, count2)),
                     is_identical := False\<rparr>
         else result)"

definition compare_states :: "state \<Rightarrow> state \<Rightarrow> comparison" where
  "compare_states state1 state2 =
     (let result0 = \<lparr>has_conflict = False, timestamp_diff = None, posted_diff = Map.empty,
                      cycle_diff = Map.empty, is_identical = True\<rparr>;
          result1 = compare_timestamp state1 state2 result0;
          result2 = fold (compare_posted state1 state2) plural_keys result1;
          result3 = fold (compare_count state1 state2) plural_keys result2
      in result3)"

subsection \<open>Errors\<close>

text \<open>
  The exception classes of the module and the built-in exceptions that its statements can
  raise. \<open>GistRateLimitError\<close> carries \<^verbatim>\<open>retry_after\<close>.
\<close>

datatype error =
    GistAPIError
  | GistAuthenticationError
  | GistNotFoundError
  | GistRateLimitError int
  | GistNetworkError
  | GistTimeoutError
  | GistServerError
  | KeyError
  | ValueError
  | TypeError
  | OverflowError

subsection \<open>Availability\<close>

text \<open>A catalog item: its \<^verbatim>\<open>id\<close> and the rest of its fields, which the code never reads.\<close>

record item =
  item_id :: string
  item_fields :: string

text \<open>
  \<^verbatim>\<open>get_available_items(category, all_items)\<close> on the manager's state. The result
  is the returned list or the exception, paired with the state as the call leaves it:
  the posted list is cleared before the counter is incremented, so a \<open>KeyError\<close> from
  the increment leaves the cleared list behind.
\<close>

definition get_available_items ::
  "string \<Rightarrow> item list \<Rightarrow> state \<Rightarrow> (error + item list) \<times> state" where
  "get_available_items category all_items s =
     (let posted_key = category @ ''s'';
          posted_ids = set (get_posted s posted_key);
          all_ids = set (map item_id all_items);
          available_ids = all_ids - posted_ids
      in if available_ids = {} then
           (let s1 = s\<lparr>posted := (posted s)(posted_key \<mapsto> [])\<rparr>
            in case cycle_count s1 of
                 None \<Rightarrow> (Inl KeyError, s1)
               | Some cc \<Rightarrow>
                   (case cc posted_key of
                      None \<Rightarrow> (Inl KeyError, s1)
                    | Some n \<Rightarrow>
                        (Inr (filter (\<lambda>i. item_id i \<in> all_ids) all_items),
                         s1\<lparr>cycle_count := Some (cc(posted_key \<mapsto> n + 1))\<rparr>)))
         else (Inr (filter (\<lambda>i. item_id i \<in> available_ids) all_items), s))"

text \<open>
  \<^verbatim>\<open>get_random_available_item\<close>; the draw of \<^verbatim>\<open>random.choice\<close> is the argument
  \<open>r\<close>, reduced to an index of the list.
\<close>

definition get_random_available_item ::
  "nat \<Rightarrow> string \<Rightarrow> item list \<Rightarrow> state \<Rightarrow> (error + item option) \<times> state" where
  "get_random_available_item r category all_items s =
     (case get_available_items category all_items s of
        (Inl e, s') \<Rightarrow> (Inl e, s')
      | (Inr available, s') \<Rightarrow>
          if available = [] then (Inr None, s')
          else (Inr (Some (available ! (r mod length available))), s'))"

text \<open>The state after \<open>n\<close> successive calls of \<^verbatim>\<open>get_available_items\<close>.\<close>

fun repeat_get_available :: "nat \<Rightarrow> string \<Rightarrow> item list \<Rightarrow> state \<Rightarrow> state" where
  "repeat_get_available 0 category all_items s = s"
| "repeat_get_available (Suc n) category all_items s =
     repeat_get_available n category all_items (snd (get_available_items category all_items s))"

subsection \<open>The retrying remote client\<close>

text \<open>
  What one \<^verbatim>\<open>requests.request\<close> call can do: return a response, of which the code
  reads the status code and the \<^verbatim>\<open>Retry-After\<close> header, or raise one of the
  \<^verbatim>\<open>requests\<close> exceptions. The header is given by what the code makes of it:
  \<open>NoHeader\<close> when it is missing or empty (falsy), \<open>Seconds n\<close> when
  \<^verbatim>\<open>int(retry_after)\<close> is \<open>n\<close>, \<open>NotInteger\<close> when \<^verbatim>\<open>int(retry_after)\<close> raises
  \<^verbatim>\<open>ValueError\<close> (an HTTP-date, for example).
\<close>

datatype retry_after = NoHeader | Seconds int | NotInteger

datatype outcome =
    Response int retry_after
  | Timeout
  | ConnectionError
  | RequestException

text \<open>
  The effects of the client besides its result: the requests it has issued and the
  arguments of its \<^verbatim>\<open>time.sleep\<close> calls, oldest first.
\<close>

record effects =
  requests :: nat
  sleeps :: "int list"

text \<open>
  \<^verbatim>\<open>time.sleep(secs)\<close> with an integer argument. CPython first converts the
  argument to a signed 64-bit count of nanoseconds and raises \<^verbatim>\<open>OverflowError\<close>
  when it does not fit, that is beyond 9223372036 seconds in either direction; then it
  raises \<^verbatim>\<open>ValueError\<close> for a negative argument.
\<close>

definition sleep_max :: int where
  "sleep_max = 9223372036"

definition sleep :: "int \<Rightarrow> effects \<Rightarrow> error + effects" where
  "sleep secs eff =
     (if secs > sleep_max \<or> secs < - sleep_max then Inl OverflowError
      else if secs < 0 then Inl ValueError
      else Inr (eff\<lparr>sleeps := sleeps eff @ [secs]\<rparr>))"

text \<open>
  The body of the \<^verbatim>\<open>for attempt in range(GIST_API_MAX_RETRIES)\<close> loop, over the
  attempts still to be made. \<open>call attempt\<close> is what the request of that attempt does.
  A returned response is represented by its status code. When the attempts run out
  without a return or a raise, the statement after the loop raises \<open>GistAPIError\<close>.
\<close>

fun retry_loop ::
  "(nat \<Rightarrow> outcome) \<Rightarrow> nat list \<Rightarrow> int \<Rightarrow> effects \<Rightarrow> (error + int) \<times> effects" where
  "retry_loop call [] retry_delay eff = (Inl GistAPIError, eff)"
| "retry_loop call (attempt # rest) retry_delay eff =
     (let eff1 = eff\<lparr>requests := requests eff + 1\<rparr>;
          more = (int attempt < int GIST_API_MAX_RETRIES - 1)
      in case call attempt of
           Response status_code hdr \<Rightarrow>
             if status_code = 200 \<or> status_code = 201 then (Inr status_code, eff1)
             else if status_code = 401 then (Inl GistAuthenticationError, eff1)
             else if status_code = 403 then (Inl GistAuthenticationError, eff1)
             else if status_code = 404 then (Inl GistNotFoundError, eff1)
             else if status_code = 429 then
               (case hdr of
                  NotInteger \<Rightarrow> (Inl ValueError, eff1)
                | _ \<Rightarrow>
                   (let retry_after_int =
                          (case hdr of Seconds n \<Rightarrow> n | _ \<Rightarrow> retry_delay)
                    in if more then
                         (case sleep retry_after_int eff1 of
                            Inl e \<Rightarrow> (Inl e, eff1)
                          | Inr eff2 \<Rightarrow> retry_loop call rest retry_delay eff2)
                       else (Inl (GistRateLimitError retry_after_int), eff1)))
             else if status_code \<ge> 500 then
               (if more then
                  (case sleep retry_delay eff1 of
                     Inl e \<Rightarrow> (Inl e, eff1)
                   | Inr eff2 \<Rightarrow>
                       retry_loop call rest (retry_delay * GIST_API_RETRY_BACKOFF) eff2)
                else (Inl GistServerError, eff1))
             else (Inl GistAPIError, eff1)
         | Timeout \<Rightarrow>
             if more then
               (case sleep retry_delay eff1 of
                  Inl e \<Rightarrow> (Inl e, eff1)
                | Inr eff2 \<Rightarrow>
                    retry_loop call rest (retry_delay * GIST_API_RETRY_BACKOFF) eff2)
             else (Inl GistTimeoutError, eff1)
         | ConnectionError \<Rightarrow>
             if more then
               (case sleep retry_delay eff1 of
                  Inl e \<Rightarrow> (Inl e, eff1)
                | Inr eff2 \<Rightarrow>
                    retry_loop call rest (retry_delay * GIST_API_RETRY_BACKOFF) eff2)
             else (Inl GistNetworkError, eff1)
         | RequestException \<Rightarrow> (Inl GistNetworkError, eff1))"

definition gist_api_call_with_retry :: "(nat \<Rightarrow> outcome) \<Rightarrow> (error + int) \<times> effects" where
  "gist_api_call_with_retry call =
     retry_loop call [0..<GIST_API_MAX_RETRIES] GIST_API_RETRY_DELAY
       \<lparr>requests = 0, sleeps = []\<rparr>"

subsection \<open>Pull mode\<close>

text \<open>
  The two files the sync operations touch: the local state file and its
  \<^verbatim>\<open>.backup.json\<close> sibling; \<open>None\<close> is a file that does not exist.
\<close>

record files =
  local_file :: "state option"
  backup_file :: "state option"

text \<open>
  \<^verbatim>\<open>_backup_local_state\<close>: nothing to do without a local file; otherwise the copy
  either succeeds or fails (\<open>copy_ok\<close>), and a failure is reported by the result only.
\<close>

definition backup_local_state :: "bool \<Rightarrow> files \<Rightarrow> bool \<times> files" where
  "backup_local_state copy_ok fs =
     (if local_file fs = None then (True, fs)
      else if copy_ok then (True, fs\<lparr>backup_file := local_file fs\<rparr>)
      else (False, fs))"

text \<open>
  \<^verbatim>\<open>sync_from_gist(force, dry_run)\<close>. \<open>loaded\<close> is what \<^verbatim>\<open>_load_gist_state()\<close>
  returned (\<open>None\<close> after any failure), \<open>now\<close> the clock reading for a fresh local
  snapshot. The result is the returned flag and the files as the call leaves them.
\<close>

definition sync_from_gist ::
  "state option \<Rightarrow> string \<Rightarrow> bool \<Rightarrow> bool \<Rightarrow> bool \<Rightarrow> files \<Rightarrow> bool \<times> files" where
  "sync_from_gist loaded now copy_ok force dry_run fs =
     (case loaded of
        None \<Rightarrow> (False, fs)
      | Some gist_state \<Rightarrow>
          if \<not> state_truthy gist_state then (False, fs)
          else
            (let local_state =
                   (case local_file fs of
                      Some st \<Rightarrow> st
                    | None \<Rightarrow> create_initial_state now);
                 comparison = compare_states gist_state local_state
             in if is_identical comparison then (True, fs)
                else
                  (let gist_ts = get_last_updated gist_state;
                       local_ts = get_last_updated local_state
                   in if has_conflict comparison \<and> \<not> force then (False, fs)
                      else if gist_ts < local_ts \<and> \<not> force then (False, fs)
                      else if dry_run then (True, fs)
                      else
                        (let fs1 = snd (backup_local_state copy_ok fs)
                         in (True, fs1\<lparr>local_file := Some gist_state\<rparr>)))))"

subsection \<open>Timestamp validation\<close>

text \<open>
  A \<^verbatim>\<open>datetime\<close> value by its fields. \<^verbatim>\<open>datetime.replace\<close> builds a new value
  and raises \<^verbatim>\<open>ValueError\<close> when a field is out of range or the day does not exist
  in the month.
\<close>

record datetime =
  dt_year :: int
  dt_month :: int
  dt_day :: int
  dt_hour :: int
  dt_minute :: int
  dt_second :: int
  dt_microsecond :: int

definition is_leap :: "int \<Rightarrow> bool" where
  "is_leap y = (y mod 4 = 0 \<and> (y mod 100 \<noteq> 0 \<or> y mod 400 = 0))"

definition days_in_month :: "int \<Rightarrow> int \<Rightarrow> int" where
  "days_in_month y m =
     (if m = 2 then (if is_leap y then 29 else 28)
      else if m = 4 \<or> m = 6 \<or> m = 9 \<or> m = 11 then 30 else 31)"

definition valid_datetime :: "datetime \<Rightarrow> bool" where
  "valid_datetime d =
     (1 \<le> dt_year d \<and> dt_year d \<le> 9999 \<and> 1 \<le> dt_month d \<and> dt_month d \<le> 12 \<and>
      1 \<le> dt_day d \<and> dt_day d \<le> days_in_month (dt_year d) (dt_month d) \<and>
      0 \<le> dt_hour d \<and> dt_hour d \<le> 23 \<and> 0 \<le> dt_minute d \<and> dt_minute d \<le> 59 \<and>
      0 \<le> dt_second d \<and> dt_second d \<le> 59 \<and>
      0 \<le> dt_microsecond d \<and> dt_microsecond d \<le> 999999)"

definition replace_year :: "datetime \<Rightarrow> int \<Rightarrow> error + datetime" where
  "replace_year d y =
     (let d' = d\<lparr>dt_year := y\<rparr> in if valid_datetime d' then Inr d' else Inl ValueError)"

definition replace_minute :: "datetime \<Rightarrow> int \<Rightarrow> error + datetime" where
  "replace_minute d m =
     (let d' = d\<lparr>dt_minute := m\<rparr> in if valid_datetime d' then Inr d' else Inl ValueError)"

text \<open>Order of two aware datetimes in UTC: lexicographic on the fields.\<close>

definition dt_fields :: "datetime \<Rightarrow> int list" where
  "dt_fields d =
     [dt_year d, dt_month d, dt_day d, dt_hour d, dt_minute d, dt_second d, dt_microsecond d]"

text \<open>
  The timestamps the program writes are
  \<^verbatim>\<open>datetime.now(timezone.utc).isoformat().replace('+00:00', 'Z')\<close>.
  \<^verbatim>\<open>isoformat\<close> of an aware UTC datetime prints the fields zero-padded, prints the
  six-digit fraction only when the microsecond is not zero, and ends with the offset.
\<close>

definition digit :: "nat \<Rightarrow> char" where
  "digit n = ''0123456789'' ! (n mod 10)"

definition pad2 :: "int \<Rightarrow> string" where
  "pad2 i = (let n = nat i in [digit (n div 10), digit n])"

definition pad4 :: "int \<Rightarrow> string" where
  "pad4 i = (let n = nat i in [digit (n div 1000), digit (n div 100), digit (n div 10), digit n])"

definition pad6 :: "int \<Rightarrow> string" where
  "pad6 i =
     (let n = nat i
      in [digit (n div 100000), digit (n div 10000), digit (n div 1000), digit (n div 100),
          digit (n div 10), digit n])"

definition isoformat :: "datetime \<Rightarrow> string" where
  "isoformat d =
     pad4 (dt_year d) @ ''-'' @ pad2 (dt_month d) @ ''-'' @ pad2 (dt_day d) @ ''T'' @
     pad2 (dt_hour d) @ '':'' @ pad2 (dt_minute d) @ '':'' @ pad2 (dt_second d) @
     (if dt_microsecond d \<noteq> 0 then ''.'' @ pad6 (dt_microsecond d) else []) @ ''+00:00''"

text \<open>\<^verbatim>\<open>s.replace('+00:00', 'Z')\<close>, left to right over the string.\<close>

function replace_offset :: "string \<Rightarrow> string" where
  "replace_offset [] = []"
| "replace_offset (c # cs) =
     (if take 6 (c # cs) = ''+00:00'' then ''Z'' @ replace_offset (drop 5 cs)
      else c # replace_offset cs)"
  by pat_completeness auto
termination
  by (relation "measure length") auto

definition utc_stamp :: "datetime \<Rightarrow> string" where
  "utc_stamp d = replace_offset (isoformat d)"

text \<open>
  What \<^verbatim>\<open>datetime.fromisoformat\<close> makes of a string: a \<^verbatim>\<open>ValueError\<close>, a naive
  datetime (no offset in the string) or an aware one, given here in UTC. The parser itself
  is the parameter \<open>fromisoformat\<close> of the check below.
\<close>

datatype parsed = ParseError | Naive datetime | Aware datetime

text \<open>\<^verbatim>\<open>s.replace('Z', '+00:00')\<close>\<close>

definition replace_Z :: "string \<Rightarrow> string" where
  "replace_Z s = concat (map (\<lambda>c. if c = CHR ''Z'' then ''+00:00'' else [c]) s)"

text \<open>
  \<^verbatim>\<open>a > b\<close> where \<open>b\<close> is aware: comparing a naive datetime with an aware one raises
  \<^verbatim>\<open>TypeError\<close>.
\<close>

definition dt_greater :: "parsed \<Rightarrow> datetime \<Rightarrow> error + bool" where
  "dt_greater a b =
     (case a of
        Aware d \<Rightarrow> Inr (dt_fields d > dt_fields b)
      | Naive d \<Rightarrow> Inl TypeError
      | ParseError \<Rightarrow> Inl ValueError)"

definition dt_less :: "parsed \<Rightarrow> datetime \<Rightarrow> error + bool" where
  "dt_less a b =
     (case a of
        Aware d \<Rightarrow> Inr (dt_fields d < dt_fields b)
      | Naive d \<Rightarrow> Inl TypeError
      | ParseError \<Rightarrow> Inl ValueError)"

text \<open>The findings of the check, one constructor per message of the source.\<close>

datatype issue =
    LastUpdatedMissing
  | LastUpdatedFuture string
  | LastUpdatedBadFormat string
  | TimestampMissing string
  | TimestampFuture string string
  | TimestampAfterLastUpdated string
  | TimestampBadFormat string string

datatype warning = LastUpdatedOld string

record check_result =
  passed :: bool
  warning :: bool
  issues :: "issue list"
  warnings :: "warning list"

text \<open>
  The \<^verbatim>\<open>last_updated\<close> part of \<^verbatim>\<open>validate_timestamps\<close>: the \<^verbatim>\<open>try\<close> block
  catches \<^verbatim>\<open>ValueError\<close> and \<^verbatim>\<open>AttributeError\<close> only, so the \<^verbatim>\<open>TypeError\<close>
  of a comparison leaves the function.
\<close>

definition check_last_updated ::
  "(string \<Rightarrow> parsed) \<Rightarrow> datetime \<Rightarrow> datetime \<Rightarrow> state \<Rightarrow>
     error + (issue list \<times> warning list)" where
  "check_last_updated fromisoformat one_year_ago future_tolerance s =
     (if \<not> str_truthy (last_updated s) then Inr ([LastUpdatedMissing], [])
      else
        (let last_updated_str = get_last_updated s;
             p = fromisoformat (replace_Z last_updated_str)
         in case p of
              ParseError \<Rightarrow> Inr ([LastUpdatedBadFormat last_updated_str], [])
            | _ \<Rightarrow>
               (case dt_greater p future_tolerance of
                  Inl e \<Rightarrow> Inl e
                | Inr True \<Rightarrow> Inr ([LastUpdatedFuture last_updated_str], [])
                | Inr False \<Rightarrow>
                   (case dt_less p one_year_ago of
                      Inl e \<Rightarrow> Inl e
                    | Inr True \<Rightarrow> Inr ([], [LastUpdatedOld last_updated_str])
                    | Inr False \<Rightarrow> Inr ([], [])))))"

text \<open>
  One round of the loop over \<^verbatim>\<open>CATEGORY_CONFIG.values()\<close>, for the category with the
  given singular name; it returns the issues to append. The inner \<^verbatim>\<open>try\<close> has a
  bare \<^verbatim>\<open>except: pass\<close>, which swallows every exception of the comparison with
  \<^verbatim>\<open>last_updated\<close>.
\<close>

definition check_last_posted ::
  "(string \<Rightarrow> parsed) \<Rightarrow> datetime \<Rightarrow> state \<Rightarrow> string \<Rightarrow> error + issue list" where
  "check_last_posted fromisoformat future_tolerance s category =
     (case get_last s category of
        None \<Rightarrow> Inr []
      | Some entry \<Rightarrow>
          if \<not> str_truthy (entry_timestamp entry) then Inr [TimestampMissing category]
          else
            (let timestamp_str = get_timestamp entry;
                 p = fromisoformat (replace_Z timestamp_str)
             in case p of
                  ParseError \<Rightarrow> Inr [TimestampBadFormat category timestamp_str]
                | _ \<Rightarrow>
                   (case dt_greater p future_tolerance of
                      Inl e \<Rightarrow> Inl e
                    | Inr True \<Rightarrow> Inr [TimestampFuture category timestamp_str]
                    | Inr False \<Rightarrow>
                       if str_truthy (last_updated s) then
                         (case fromisoformat (replace_Z (get_last_updated s)) of
                            Aware lu \<Rightarrow>
                              (case dt_greater p lu of
                                 Inr True \<Rightarrow> Inr [TimestampAfterLastUpdated category]
                               | _ \<Rightarrow> Inr [])
                          | _ \<Rightarrow> Inr [])
                       else Inr [])))"

fun check_all_last_posted ::
  "(string \<Rightarrow> parsed) \<Rightarrow> datetime \<Rightarrow> state \<Rightarrow> string list \<Rightarrow> issue list \<Rightarrow>
     error + issue list" where
  "check_all_last_posted fromisoformat future_tolerance s [] acc = Inr acc"
| "check_all_last_posted fromisoformat future_tolerance s (category # rest) acc =
     (case check_last_posted fromisoformat future_tolerance s category of
        Inl e \<Rightarrow> Inl e
      | Inr new \<Rightarrow> check_all_last_posted fromisoformat future_tolerance s rest (acc @ new))"

text \<open>
  \<^verbatim>\<open>validate_timestamps\<close>; \<open>now\<close> is the value of
  \<^verbatim>\<open>datetime.now(timezone.utc)\<close>. The two \<^verbatim>\<open>replace\<close> calls come first and stand
  outside every \<^verbatim>\<open>try\<close>.
\<close>

definition validate_timestamps ::
  "(string \<Rightarrow> parsed) \<Rightarrow> datetime \<Rightarrow> state \<Rightarrow> error + check_result" where
  "validate_timestamps fromisoformat now s =
     (case replace_year now (dt_year now - TIMESTAMP_PAST_TOLERANCE_YEARS) of
        Inl e \<Rightarrow> Inl e
      | Inr one_year_ago \<Rightarrow>
          (case replace_minute now (dt_minute now + TIMESTAMP_FUTURE_TOLERANCE_MINUTES) of
             Inl e \<Rightarrow> Inl e
           | Inr future_tolerance \<Rightarrow>
               (case check_last_updated fromisoformat one_year_ago future_tolerance s of
                  Inl e \<Rightarrow> Inl e
                | Inr (issues0, warnings0) \<Rightarrow>
                    (case check_all_last_posted fromisoformat future_tolerance s
                            (map fst CATEGORY_CONFIG) issues0 of
                       Inl e \<Rightarrow> Inl e
                     | Inr issues1 \<Rightarrow>
                         Inr \<lparr>passed = (length issues1 = 0),
                              warning = (length warnings0 > 0 \<and> length issues1 = 0),
                              issues = issues1,
                              warnings = warnings0\<rparr>))))"

subsection \<open>Predicates used in the statements\<close>

text \<open>
  Both snapshots hold a non-empty last-posted entry for the category: the case in which
  \<^verbatim>\<open>merge_states\<close> compares the two entry timestamps.
\<close>

definition both_entries :: "state \<Rightarrow> state \<Rightarrow> string \<Rightarrow> bool" where
  "both_entries state1 state2 category =
     (case (get_last state1 category, get_last state2 category) of
        (Some last1, Some last2) \<Rightarrow> entry_truthy last1 \<and> entry_truthy last2
      | _ \<Rightarrow> False)"

text \<open>
  The snapshot holds a counter for the key: \<^verbatim>\<open>state['cycle_count'][key]\<close> can be
  read without a \<^verbatim>\<open>KeyError\<close>.
\<close>

definition has_count :: "state \<Rightarrow> string \<Rightarrow> bool" where
  "has_count s k =
     (case cycle_count s of
        None \<Rightarrow> False
      | Some cc \<Rightarrow> (case cc k of None \<Rightarrow> False | Some n \<Rightarrow> True))"

text \<open>\<^verbatim>\<open>state.get('cycle_count', {})\<close>\<close>

definition counts_of :: "state \<Rightarrow> (string \<rightharpoonup> int)" where
  "counts_of s = (case cycle_count s of None \<Rightarrow> Map.empty | Some cc \<Rightarrow> cc)"

text \<open>
  The outcomes after which the client tries again while attempts are left: status 429,
  status 500 and above, a timeout, a connection error.
\<close>

definition retryable :: "outcome \<Rightarrow> bool" where
  "retryable out =
     (case out of
        Response status_code hdr \<Rightarrow> status_code = 429 \<or> status_code \<ge> 500
      | Timeout \<Rightarrow> True
      | ConnectionError \<Rightarrow> True
      | RequestException \<Rightarrow> False)"

text \<open>The typed error that belongs to a retryable outcome.\<close>

definition raised_for :: "outcome \<Rightarrow> error \<Rightarrow> bool" where
  "raised_for out e =
     (case out of
        Response status_code hdr \<Rightarrow>
          if status_code = 429
          then (case e of GistRateLimitError r \<Rightarrow> True | _ \<Rightarrow> False)
          else e = GistServerError
      | Timeout \<Rightarrow> e = GistTimeoutError
      | ConnectionError \<Rightarrow> e = GistNetworkError
      | RequestException \<Rightarrow> False)"

text \<open>
  The \<^verbatim>\<open>Retry-After\<close> header of a 429 response is missing, empty or an integer; for an
  attempt that is followed by a sleep, the integer is one that \<^verbatim>\<open>time.sleep\<close>
  accepts.
\<close>

definition header_parses :: "outcome \<Rightarrow> bool" where
  "header_parses out =
     (case out of
        Response status_code hdr \<Rightarrow> \<not> (status_code = 429 \<and> hdr = NotInteger)
      | _ \<Rightarrow> True)"

definition header_sleepable :: "outcome \<Rightarrow> bool" where
  "header_sleepable out =
     (case out of
        Response status_code hdr \<Rightarrow>
          \<not> (status_code = 429 \<and>
             (case hdr of Seconds n \<Rightarrow> n < 0 \<or> n > sleep_max | NoHeader \<Rightarrow> False
              | NotInteger \<Rightarrow> True))
      | _ \<Rightarrow> True)"

text \<open>
  What a retryable outcome on a non-final attempt does to the loop: the seconds slept and
  the delay handed to the next attempt.
\<close>

definition sleep_secs :: "outcome \<Rightarrow> int \<Rightarrow> int" where
  "sleep_secs out retry_delay =
     (case out of
        Response status_code hdr \<Rightarrow>
          if status_code = 429 then (case hdr of Seconds n \<Rightarrow> n | _ \<Rightarrow> retry_delay)
          else retry_delay
      | _ \<Rightarrow> retry_delay)"

definition next_delay :: "outcome \<Rightarrow> int \<Rightarrow> int" where
  "next_delay out retry_delay =
     (case out of
        Response status_code hdr \<Rightarrow>
          if status_code = 429 then retry_delay else retry_delay * GIST_API_RETRY_BACKOFF
      | _ \<Rightarrow> retry_delay * GIST_API_RETRY_BACKOFF)"

section \<open>Verification\<close>

subsection \<open>Configured categories\<close>

lemma plural_keys_eq:
  "plural_keys = [''spells'', ''potions'', ''creatures'', ''objects'', ''locations'',
     ''organizations'', ''concepts'', ''characters'']"
  by (simp add: plural_keys_def CATEGORY_CONFIG_PLURAL_def CATEGORY_CONFIG_def)

lemma singular_values_eq:
  "singular_values = [''spell'', ''potion'', ''creature'', ''object'', ''location'',
     ''organization'', ''concept'', ''character'']"
  by (simp add: singular_values_def CATEGORY_CONFIG_PLURAL_def CATEGORY_CONFIG_def)

subsection \<open>Merge: posted sets\<close>

lemma posted_fold_merge_count:
  "posted (fold (merge_count state1 state2) cs merged) = posted merged"
  by (induction cs arbitrary: merged) (auto simp: merge_count_def split: option.splits)

lemma posted_merge_last:
  "posted (fst (merge_last state1 state2 c acc)) = posted (fst acc)"
  by (cases acc) (auto simp: merge_last_def Let_def split: option.splits)

lemma posted_fold_merge_last:
  "posted (fst (fold (merge_last state1 state2) cs acc)) = posted (fst acc)"
  by (induction cs arbitrary: acc) (simp_all add: posted_merge_last)

lemma posted_fold_merge_posted:
  "posted (fold (merge_posted state1 state2) cs merged) c =
     (if c \<in> set cs
      then Some (union_list (get_posted state1 c) (get_posted state2 c))
      else posted merged c)"
  by (induction cs arbitrary: merged) (auto simp: merge_posted_def)

lemma posted_merge_states:
  "posted (merge_states state1 state2 prefer_newer now) =
   posted (fold (merge_posted state1 state2) plural_keys (create_initial_state now))"
proof -
  let ?m1 = "fold (merge_posted state1 state2) plural_keys (create_initial_state now)"
  let ?acc = "(?m1, get_last_updated state1, get_last_updated state2)"
  obtain m t1 t2 where f: "fold (merge_last state1 state2) singular_values ?acc = (m, t1, t2)"
    by (cases "fold (merge_last state1 state2) singular_values ?acc") auto
  have "posted m = posted ?m1"
    using posted_fold_merge_last [of state1 state2 singular_values ?acc] f by simp
  then show ?thesis
    by (simp add: merge_states_def Let_def f posted_fold_merge_count)
qed

text \<open>
  C1. For every configured category, the posted ids of the merged snapshot are exactly
  the ids posted in the first snapshot together with the ids posted in the second: none
  is lost and none is invented.
\<close>

theorem merge_states_posted_union:
  "\<forall>c \<in> set plural_keys.
     set (get_posted (merge_states A B prefer_newer now) c) =
       set (get_posted A c) \<union> set (get_posted B c)"
  by (simp add: get_posted_def posted_merge_states posted_fold_merge_posted union_list_def)

theorem merge_states_posted_union_witness:
  "''spells'' \<in> set plural_keys \<and>
   set (get_posted
     (merge_states (empty_state\<lparr>posted := [''spells'' \<mapsto> [''a'', ''b'']]\<rparr>)
        (empty_state\<lparr>posted := [''spells'' \<mapsto> [''b'', ''c'']]\<rparr>) True ''2024-01-01T00:00:00Z'')
     ''spells'') = {''a'', ''b'', ''c''}"
proof -
  have m: "''spells'' \<in> set plural_keys"
    by (simp add: plural_keys_eq)
  have l: "set (get_posted (empty_state\<lparr>posted := [''spells'' \<mapsto> [''a'', ''b'']]\<rparr>) ''spells'')
       = {''a'', ''b''}"
    by (simp add: get_posted_def)
  have r: "set (get_posted (empty_state\<lparr>posted := [''spells'' \<mapsto> [''b'', ''c'']]\<rparr>) ''spells'')
       = {''b'', ''c''}"
    by (simp add: get_posted_def)
  from merge_states_posted_union m
  have "set (get_posted
     (merge_states (empty_state\<lparr>posted := [''spells'' \<mapsto> [''a'', ''b'']]\<rparr>)
        (empty_state\<lparr>posted := [''spells'' \<mapsto> [''b'', ''c'']]\<rparr>) True ''2024-01-01T00:00:00Z'')
     ''spells'') = {''a'', ''b''} \<union> {''b'', ''c''}"
    unfolding l [symmetric] r [symmetric] by blast
  with m show ?thesis by auto
qed

subsection \<open>Merge: the top-level timestamp\<close>

text \<open>
  When no configured category has a non-empty last-posted entry on both sides, the loop
  over the last-posted entries leaves \<^verbatim>\<open>ts1\<close> and \<^verbatim>\<open>ts2\<close> alone, and the merged
  \<^verbatim>\<open>last_updated\<close> is the larger of the two source values.
\<close>

lemma merge_last_keeps_ts:
  "\<not> both_entries state1 state2 c \<Longrightarrow>
     snd (merge_last state1 state2 c (m, t1, t2)) = (t1, t2)"
  by (auto simp: merge_last_def both_entries_def split: option.splits)

lemma fold_merge_last_keeps_ts:
  "list_all (\<lambda>c. \<not> both_entries state1 state2 c) cs \<Longrightarrow>
     snd (fold (merge_last state1 state2) cs (m, t1, t2)) = (t1, t2)"
proof (induction cs arbitrary: m)
  case Nil
  then show ?case by simp
next
  case (Cons c cs)
  obtain m' where "merge_last state1 state2 c (m, t1, t2) = (m', t1, t2)"
    using merge_last_keeps_ts [of state1 state2 c m t1 t2] Cons.prems
    by (cases "merge_last state1 state2 c (m, t1, t2)") auto
  with Cons show ?case by simp
qed

lemma last_updated_fold_merge_count:
  "last_updated (fold (merge_count state1 state2) cs merged) = last_updated merged"
  by (induction cs arbitrary: merged) (auto simp: merge_count_def split: option.splits)

lemma max_empty_string: "max ([] :: string) t = t" "max t ([] :: string) = t"
  by (simp_all add: max_def)

lemma merge_states_last_updated_plain:
  assumes "list_all (\<lambda>c. \<not> both_entries state1 state2 c) singular_values"
  shows "last_updated (merge_states state1 state2 True now) =
           Some (max (get_last_updated state1) (get_last_updated state2))"
proof -
  let ?m1 = "fold (merge_posted state1 state2) plural_keys (create_initial_state now)"
  let ?acc = "(?m1, get_last_updated state1, get_last_updated state2)"
  obtain m where f: "fold (merge_last state1 state2) singular_values ?acc =
      (m, get_last_updated state1, get_last_updated state2)"
    using fold_merge_last_keeps_ts [OF assms, of ?m1 "get_last_updated state1" "get_last_updated state2"]
    by (cases "fold (merge_last state1 state2) singular_values ?acc") auto
  show ?thesis
    by (auto simp: merge_states_def Let_def f max_empty_string)
qed

text \<open>
  C2. The merged \<^verbatim>\<open>last_updated\<close> should be the larger of the two source
  \<^verbatim>\<open>last_updated\<close> values. With a last-posted entry for spells on both sides, the
  code returns the larger of the two entry timestamps instead: here the sources are
  stamped 2 and 3 January 2024 and the merge is stamped 1 January.
\<close>

theorem merge_states_last_updated_shadowed:
  "last_updated
     (merge_states
        (empty_state\<lparr>last_posted := [''spell'' \<mapsto>
             Some \<lparr>entry_id = Some ''a'', entry_timestamp = Some ''2024-01-01T00:00:00Z''\<rparr>],
           last_updated := Some ''2024-01-02T00:00:00Z''\<rparr>)
        (empty_state\<lparr>last_posted := [''spell'' \<mapsto>
             Some \<lparr>entry_id = Some ''b'', entry_timestamp = Some ''2023-12-31T00:00:00Z''\<rparr>],
           last_updated := Some ''2024-01-03T00:00:00Z''\<rparr>)
        True ''2024-01-04T00:00:00Z'')
     = Some ''2024-01-01T00:00:00Z'' \<and>
   max ''2024-01-02T00:00:00Z'' ''2024-01-03T00:00:00Z'' = ''2024-01-03T00:00:00Z''"
  by (simp add: merge_states_def Let_def singular_values_eq plural_keys_eq merge_last_def
      get_last_def get_last_updated_def get_timestamp_def entry_truthy_def empty_state_def
      last_updated_fold_merge_count)

subsection \<open>Availability and cycle reset\<close>

text \<open>
  Every state the manager holds has a counter for each configured category: the state is
  built by \<^verbatim>\<open>_create_initial_state\<close> or passed through \<^verbatim>\<open>_migrate_state\<close>, and
  the key that \<^verbatim>\<open>get_available_items\<close> builds from a configured singular name is
  the configured plural name.
\<close>

lemma singular_s_is_plural:
  "(pl, sg) \<in> set CATEGORY_CONFIG_PLURAL \<Longrightarrow> sg @ ''s'' = pl"
  by (auto simp: CATEGORY_CONFIG_PLURAL_def CATEGORY_CONFIG_def)

lemma singular_s_in_plural_keys:
  "sg \<in> set singular_values \<Longrightarrow> sg @ ''s'' \<in> set plural_keys"
  by (auto simp: singular_values_eq plural_keys_eq)

lemma fold_migrate_count_defined:
  "k \<in> set cs \<or> cc k \<noteq> None \<Longrightarrow> fold migrate_count cs cc k \<noteq> None"
  by (induction cs arbitrary: cc) (auto simp: migrate_count_def)

lemma has_count_migrate_state:
  "k \<in> set plural_keys \<Longrightarrow> has_count (migrate_state s) k"
  using fold_migrate_count_defined [of k plural_keys]
  by (auto simp: has_count_def migrate_state_def Let_def split: option.splits)

lemma fold_zero_defined:
  "k \<in> set cs \<or> m k \<noteq> None \<Longrightarrow> fold (\<lambda>c m. m(c \<mapsto> (0::int))) cs m k \<noteq> None"
  by (induction cs arbitrary: m) auto

lemma has_count_create_initial_state:
  "k \<in> set plural_keys \<Longrightarrow> has_count (create_initial_state now) k"
  using fold_zero_defined [of k plural_keys Map.empty]
  by (auto simp: has_count_def create_initial_state_def split: option.splits)

lemma has_count_get_available_items:
  "has_count s k \<Longrightarrow> has_count (snd (get_available_items category all_items s)) k"
  by (auto simp: has_count_def get_available_items_def Let_def split: option.splits)

lemma filter_all_ids: "filter (\<lambda>i. item_id i \<in> set (map item_id all_items)) all_items = all_items"
  by (induction all_items) auto

text \<open>
  C3. Let the state hold a counter for the category. If every catalog id is in the posted
  list, the call returns the whole catalog and leaves the posted list empty and the
  counter one higher; if some catalog id is not posted, it returns exactly the items
  whose id is not posted and leaves the state as it was.
\<close>

theorem get_available_items_reset_or_filter:
  assumes "has_count s (category @ ''s'')"
  shows "(set (map item_id all_items) \<subseteq> set (get_posted s (category @ ''s'')) \<longrightarrow>
           (\<exists>s'. get_available_items category all_items s = (Inr all_items, s') \<and>
                 get_posted s' (category @ ''s'') = [] \<and>
                 get_count s' (category @ ''s'') = get_count s (category @ ''s'') + 1)) \<and>
         (\<not> set (map item_id all_items) \<subseteq> set (get_posted s (category @ ''s'')) \<longrightarrow>
           get_available_items category all_items s =
             (Inr (filter (\<lambda>i. item_id i \<notin> set (get_posted s (category @ ''s''))) all_items),
              s))"
proof (intro conjI impI)
  assume sub: "set (map item_id all_items) \<subseteq> set (get_posted s (category @ ''s''))"
  from assms obtain cc n where cc: "cycle_count s = Some cc" "cc (category @ ''s'') = Some n"
    by (auto simp: has_count_def split: option.splits)
  from sub have e: "set (map item_id all_items) - set (get_posted s (category @ ''s'')) = {}"
    by blast
  have "get_available_items category all_items s =
          (Inr all_items,
           s\<lparr>posted := (posted s)(category @ ''s'' \<mapsto> []),
             cycle_count := Some (cc(category @ ''s'' \<mapsto> n + 1))\<rparr>)"
    unfolding get_available_items_def Let_def using e cc filter_all_ids [of all_items]
    by simp
  then show "\<exists>s'. get_available_items category all_items s = (Inr all_items, s') \<and>
                 get_posted s' (category @ ''s'') = [] \<and>
                 get_count s' (category @ ''s'') = get_count s (category @ ''s'') + 1"
    using cc by (simp add: get_posted_def get_count_def)
next
  assume nsub: "\<not> set (map item_id all_items) \<subseteq> set (get_posted s (category @ ''s''))"
  then have ne: "set (map item_id all_items) - set (get_posted s (category @ ''s'')) \<noteq> {}"
    by blast
  have "filter (\<lambda>i. item_id i \<in> set (map item_id all_items) - set (get_posted s (category @ ''s'')))
          all_items =
        filter (\<lambda>i. item_id i \<notin> set (get_posted s (category @ ''s''))) all_items"
    by (rule filter_cong) auto
  then show "get_available_items category all_items s =
             (Inr (filter (\<lambda>i. item_id i \<notin> set (get_posted s (category @ ''s''))) all_items),
              s)"
    unfolding get_available_items_def Let_def using ne by simp
qed

theorem get_available_items_reset_or_filter_witness:
  "has_count
     \<lparr>posted = [''spells'' \<mapsto> [''a'', ''b'', ''c'']], last_posted = Map.empty,
      last_updated = None, cycle_count = Some [''spells'' \<mapsto> 4]\<rparr> (''spell'' @ ''s'') \<and>
   (\<exists>s'. get_available_items ''spell''
           [\<lparr>item_id = ''a'', item_fields = ''x''\<rparr>, \<lparr>item_id = ''b'', item_fields = ''y''\<rparr>,
            \<lparr>item_id = ''c'', item_fields = ''z''\<rparr>]
           \<lparr>posted = [''spells'' \<mapsto> [''a'', ''b'', ''c'']], last_posted = Map.empty,
            last_updated = None, cycle_count = Some [''spells'' \<mapsto> 4]\<rparr> =
         (Inr [\<lparr>item_id = ''a'', item_fields = ''x''\<rparr>, \<lparr>item_id = ''b'', item_fields = ''y''\<rparr>,
               \<lparr>item_id = ''c'', item_fields = ''z''\<rparr>], s') \<and>
         get_posted s' ''spells'' = [] \<and> get_count s' ''spells'' = 5) \<and>
   get_available_items ''spell''
      [\<lparr>item_id = ''a'', item_fields = ''x''\<rparr>, \<lparr>item_id = ''b'', item_fields = ''y''\<rparr>,
       \<lparr>item_id = ''c'', item_fields = ''z''\<rparr>]
      \<lparr>posted = [''spells'' \<mapsto> [''a'', ''b'']], last_posted = Map.empty,
       last_updated = None, cycle_count = Some [''spells'' \<mapsto> 4]\<rparr> =
     (Inr [\<lparr>item_id = ''c'', item_fields = ''z''\<rparr>],
      \<lparr>posted = [''spells'' \<mapsto> [''a'', ''b'']], last_posted = Map.empty,
       last_updated = None, cycle_count = Some [''spells'' \<mapsto> 4]\<rparr>)"
proof -
  let ?cat = "[\<lparr>item_id = ''a'', item_fields = ''x''\<rparr>, \<lparr>item_id = ''b'', item_fields = ''y''\<rparr>,
               \<lparr>item_id = ''c'', item_fields = ''z''\<rparr>]"
  let ?full = "\<lparr>posted = [''spells'' \<mapsto> [''a'', ''b'', ''c'']], last_posted = Map.empty,
      last_updated = None, cycle_count = Some [''spells'' \<mapsto> (4::int)]\<rparr>"
  let ?part = "\<lparr>posted = [''spells'' \<mapsto> [''a'', ''b'']], last_posted = Map.empty,
      last_updated = None, cycle_count = Some [''spells'' \<mapsto> (4::int)]\<rparr>"
  have h1: "has_count ?full (''spell'' @ ''s'')"
    by (simp add: has_count_def)
  have h2: "has_count ?part (''spell'' @ ''s'')"
    by (simp add: has_count_def)
  have sub: "set (map item_id ?cat) \<subseteq> set (get_posted ?full (''spell'' @ ''s''))"
    by (simp add: get_posted_def)
  have nsub: "\<not> set (map item_id ?cat) \<subseteq> set (get_posted ?part (''spell'' @ ''s''))"
    by (simp add: get_posted_def)
  have c4: "get_count ?full (''spell'' @ ''s'') = 4"
    by (simp add: get_count_def)
  have flt: "filter (\<lambda>i. item_id i \<notin> set (get_posted ?part (''spell'' @ ''s''))) ?cat =
      [\<lparr>item_id = ''c'', item_fields = ''z''\<rparr>]"
    by (simp add: get_posted_def)
  from get_available_items_reset_or_filter [OF h1, of ?cat] sub c4
  have a: "\<exists>s'. get_available_items ''spell'' ?cat ?full = (Inr ?cat, s') \<and>
         get_posted s' ''spells'' = [] \<and> get_count s' ''spells'' = 5"
    by simp
  from get_available_items_reset_or_filter [OF h2, of ?cat] nsub flt
  have b: "get_available_items ''spell'' ?cat ?part = (Inr [\<lparr>item_id = ''c'', item_fields = ''z''\<rparr>], ?part)"
    by simp
  from h1 a b show ?thesis by blast
qed

subsection \<open>Availability with an empty catalog\<close>

lemma get_available_items_empty:
  assumes "has_count s (category @ ''s'')"
  shows "\<exists>s'. get_available_items category [] s = (Inr [], s') \<and>
           has_count s' (category @ ''s'') \<and>
           get_posted s' (category @ ''s'') = [] \<and>
           get_count s' (category @ ''s'') = get_count s (category @ ''s'') + 1"
proof -
  from assms obtain cc n where cc: "cycle_count s = Some cc" "cc (category @ ''s'') = Some n"
    by (auto simp: has_count_def split: option.splits)
  have "get_available_items category [] s =
          (Inr [],
           s\<lparr>posted := (posted s)(category @ ''s'' \<mapsto> []),
             cycle_count := Some (cc(category @ ''s'' \<mapsto> n + 1))\<rparr>)"
    unfolding get_available_items_def Let_def using cc by simp
  then show ?thesis
    using cc by (simp add: get_posted_def get_count_def has_count_def)
qed

lemma repeat_get_available_empty:
  "has_count s (category @ ''s'') \<Longrightarrow>
     has_count (repeat_get_available n category [] s) (category @ ''s'') \<and>
     get_count (repeat_get_available n category [] s) (category @ ''s'') =
       get_count s (category @ ''s'') + int n"
proof (induction n arbitrary: s)
  case 0
  then show ?case by simp
next
  case (Suc n)
  from get_available_items_empty [OF Suc.prems] obtain s' where
    s': "get_available_items category [] s = (Inr [], s')"
        "has_count s' (category @ ''s'')"
        "get_count s' (category @ ''s'') = get_count s (category @ ''s'') + 1"
    by blast
  from Suc.IH [OF s'(2)] s'(1,3) show ?case by simp
qed

text \<open>
  C10. Let the state hold a counter for the category. With an empty catalog,
  \<^verbatim>\<open>get_available_items\<close> returns the empty list and leaves the counter one higher;
  \<open>n\<close> calls in a row leave it \<open>n\<close> higher, so it grows without bound; and
  \<^verbatim>\<open>get_random_available_item\<close> returns \<^verbatim>\<open>None\<close> and leaves the counter one
  higher too.
\<close>

theorem empty_catalog_increments_cycle_count:
  assumes "has_count s (category @ ''s'')"
  shows "(\<exists>s'. get_available_items category [] s = (Inr [], s') \<and>
              get_posted s' (category @ ''s'') = [] \<and>
              get_count s' (category @ ''s'') = get_count s (category @ ''s'') + 1) \<and>
         get_count (repeat_get_available n category [] s) (category @ ''s'') =
              get_count s (category @ ''s'') + int n \<and>
         (\<exists>s'. get_random_available_item r category [] s = (Inr None, s') \<and>
              get_count s' (category @ ''s'') = get_count s (category @ ''s'') + 1)"
proof -
  from get_available_items_empty [OF assms] obtain s' where
    s': "get_available_items category [] s = (Inr [], s')"
        "get_posted s' (category @ ''s'') = []"
        "get_count s' (category @ ''s'') = get_count s (category @ ''s'') + 1"
    by blast
  then have "get_random_available_item r category [] s = (Inr None, s')"
    by (simp add: get_random_available_item_def)
  with s' repeat_get_available_empty [OF assms, of n] show ?thesis by blast
qed

theorem empty_catalog_increments_cycle_count_witness:
  "has_count (create_initial_state ''2024-01-01T00:00:00Z'') (''potion'' @ ''s'') \<and>
   (\<exists>s'. get_available_items ''potion'' [] (create_initial_state ''2024-01-01T00:00:00Z'') =
           (Inr [], s') \<and> get_posted s' ''potions'' = [] \<and> get_count s' ''potions'' = 1) \<and>
   get_count (repeat_get_available 7 ''potion'' [] (create_initial_state ''2024-01-01T00:00:00Z''))
     ''potions'' = 7 \<and>
   (\<exists>s'. get_random_available_item 0 ''potion'' [] (create_initial_state ''2024-01-01T00:00:00Z'') =
           (Inr None, s') \<and> get_count s' ''potions'' = 1)"
proof -
  let ?s = "create_initial_state ''2024-01-01T00:00:00Z''"
  have h: "has_count ?s (''potion'' @ ''s'')"
    by (simp add: has_count_def create_initial_state_def plural_keys_eq)
  have z: "get_count ?s (''potion'' @ ''s'') = 0"
    by (simp add: get_count_def create_initial_state_def plural_keys_eq)
  from empty_catalog_increments_cycle_count [OF h, of 7 0] z h show ?thesis
    by simp
qed

subsection \<open>Comparison: conflicts\<close>

lemma diff_list_nonempty:
  "diff_list xs ys \<noteq> [] \<longleftrightarrow> (\<exists>x. x \<in> set xs \<and> x \<notin> set ys)"
proof -
  have "diff_list xs ys \<noteq> [] \<longleftrightarrow> set (diff_list xs ys) \<noteq> {}"
    by simp
  also have "\<dots> \<longleftrightarrow> (\<exists>x. x \<in> set xs \<and> x \<notin> set ys)"
    by (auto simp: diff_list_def)
  finally show ?thesis .
qed

lemma has_conflict_compare_timestamp:
  "has_conflict (compare_timestamp state1 state2 r) = has_conflict r"
  by (simp add: compare_timestamp_def split: option.splits)

lemma has_conflict_fold_compare_count:
  "has_conflict (fold (compare_count state1 state2) cs r) = has_conflict r"
  by (induction cs arbitrary: r) (simp_all add: compare_count_def Let_def)

lemma has_conflict_compare_posted:
  "has_conflict (compare_posted state1 state2 c r) \<longleftrightarrow>
     has_conflict r \<or>
     (diff_list (get_posted state1 c) (get_posted state2 c) \<noteq> [] \<and>
      diff_list (get_posted state2 c) (get_posted state1 c) \<noteq> [])"
  by (simp add: compare_posted_def Let_def)

lemma has_conflict_fold_compare_posted:
  "has_conflict (fold (compare_posted state1 state2) cs r) \<longleftrightarrow>
     has_conflict r \<or>
     (\<exists>c \<in> set cs. diff_list (get_posted state1 c) (get_posted state2 c) \<noteq> [] \<and>
                    diff_list (get_posted state2 c) (get_posted state1 c) \<noteq> [])"
proof (induction cs arbitrary: r)
  case Nil
  then show ?case by simp
next
  case (Cons c cs)
  show ?case
    unfolding fold_simps Cons.IH has_conflict_compare_posted by auto
qed

lemma has_conflict_compare_states:
  "has_conflict (compare_states A B) \<longleftrightarrow>
     (\<exists>c \<in> set plural_keys. diff_list (get_posted A c) (get_posted B c) \<noteq> [] \<and>
                             diff_list (get_posted B c) (get_posted A c) \<noteq> [])"
  by (simp add: compare_states_def Let_def has_conflict_fold_compare_count
      has_conflict_fold_compare_posted has_conflict_compare_timestamp)

text \<open>
  C5. \<^verbatim>\<open>has_conflict\<close> is true exactly when some configured category has an id
  posted in the first snapshot only and an id posted in the second snapshot only; hence
  it is false when in every configured category one posted set contains the other.
\<close>

theorem compare_states_has_conflict:
  "(has_conflict (compare_states A B) \<longleftrightarrow>
      (\<exists>c \<in> set plural_keys.
         (\<exists>x. x \<in> set (get_posted A c) \<and> x \<notin> set (get_posted B c)) \<and>
         (\<exists>y. y \<in> set (get_posted B c) \<and> y \<notin> set (get_posted A c)))) \<and>
   ((\<forall>c \<in> set plural_keys.
        set (get_posted A c) \<subseteq> set (get_posted B c) \<or>
        set (get_posted B c) \<subseteq> set (get_posted A c)) \<longrightarrow>
      \<not> has_conflict (compare_states A B))"
  unfolding has_conflict_compare_states diff_list_nonempty by blast

theorem compare_states_has_conflict_witness:
  "has_conflict (compare_states
      (empty_state\<lparr>posted := [''spells'' \<mapsto> [''a'', ''x'']]\<rparr>)
      (empty_state\<lparr>posted := [''spells'' \<mapsto> [''a'', ''y'']]\<rparr>)) \<and>
   \<not> has_conflict (compare_states
      (empty_state\<lparr>posted := [''spells'' \<mapsto> [''a'']]\<rparr>)
      (empty_state\<lparr>posted := [''spells'' \<mapsto> [''a'', ''y'']]\<rparr>))"
proof -
  let ?A = "empty_state\<lparr>posted := [''spells'' \<mapsto> [''a'', ''x'']]\<rparr>"
  let ?B = "empty_state\<lparr>posted := [''spells'' \<mapsto> [''a'', ''y'']]\<rparr>"
  let ?C = "empty_state\<lparr>posted := [''spells'' \<mapsto> [''a'']]\<rparr>"
  have m: "''spells'' \<in> set plural_keys"
    by (simp add: plural_keys_eq)
  have "''x'' \<in> set (get_posted ?A ''spells'') \<and> ''x'' \<notin> set (get_posted ?B ''spells'')"
    and "''y'' \<in> set (get_posted ?B ''spells'') \<and> ''y'' \<notin> set (get_posted ?A ''spells'')"
    by (simp_all add: get_posted_def empty_state_def)
  with m have ex: "\<exists>c \<in> set plural_keys.
         (\<exists>x. x \<in> set (get_posted ?A c) \<and> x \<notin> set (get_posted ?B c)) \<and>
         (\<exists>y. y \<in> set (get_posted ?B c) \<and> y \<notin> set (get_posted ?A c))"
    by blast
  have sub: "\<forall>c \<in> set plural_keys.
        set (get_posted ?C c) \<subseteq> set (get_posted ?B c) \<or>
        set (get_posted ?B c) \<subseteq> set (get_posted ?C c)"
    by (simp add: get_posted_def empty_state_def)
  from compare_states_has_conflict [of ?A ?B] ex
  have 1: "has_conflict (compare_states ?A ?B)" by blast
  from compare_states_has_conflict [of ?C ?B] sub
  have 2: "\<not> has_conflict (compare_states ?C ?B)" by blast
  from 1 2 show ?thesis by blast
qed

subsection \<open>Comparison: identity\<close>

lemma diff_list_empty: "diff_list xs ys = [] \<longleftrightarrow> set xs \<subseteq> set ys"
proof -
  have "diff_list xs ys = [] \<longleftrightarrow> set (diff_list xs ys) = {}"
    by simp
  also have "\<dots> \<longleftrightarrow> set xs \<subseteq> set ys"
    by (auto simp: diff_list_def)
  finally show ?thesis .
qed

lemma is_identical_compare_timestamp:
  "is_identical (compare_timestamp state1 state2 r) \<longleftrightarrow>
     is_identical r \<and>
     (str_truthy (last_updated state1) \<and> str_truthy (last_updated state2) \<longrightarrow>
        last_updated state1 = last_updated state2)"
  by (auto simp: compare_timestamp_def str_truthy_def split: option.splits)

lemma is_identical_compare_posted:
  "is_identical (compare_posted state1 state2 c r) \<longleftrightarrow>
     is_identical r \<and> set (get_posted state1 c) = set (get_posted state2 c)"
  by (auto simp: compare_posted_def Let_def diff_list_empty)

lemma is_identical_fold_compare_posted:
  "is_identical (fold (compare_posted state1 state2) cs r) \<longleftrightarrow>
     is_identical r \<and> (\<forall>c \<in> set cs. set (get_posted state1 c) = set (get_posted state2 c))"
proof (induction cs arbitrary: r)
  case Nil
  then show ?case by simp
next
  case (Cons c cs)
  show ?case
    unfolding fold_simps Cons.IH is_identical_compare_posted by auto
qed

lemma is_identical_compare_count:
  "is_identical (compare_count state1 state2 c r) \<longleftrightarrow>
     is_identical r \<and> get_count state1 c = get_count state2 c"
  by (auto simp: compare_count_def Let_def)

lemma is_identical_fold_compare_count:
  "is_identical (fold (compare_count state1 state2) cs r) \<longleftrightarrow>
     is_identical r \<and> (\<forall>c \<in> set cs. get_count state1 c = get_count state2 c)"
proof (induction cs arbitrary: r)
  case Nil
  then show ?case by simp
next
  case (Cons c cs)
  show ?case
    unfolding fold_simps Cons.IH is_identical_compare_count by auto
qed

lemma is_identical_compare_states:
  "is_identical (compare_states A B) \<longleftrightarrow>
     (\<forall>c \<in> set plural_keys. set (get_posted A c) = set (get_posted B c)) \<and>
     (\<forall>c \<in> set plural_keys. get_count A c = get_count B c) \<and>
     (str_truthy (last_updated A) \<and> str_truthy (last_updated B) \<longrightarrow>
        last_updated A = last_updated B)"
  by (auto simp: compare_states_def Let_def is_identical_fold_compare_count
      is_identical_fold_compare_posted is_identical_compare_timestamp)

text \<open>
  C6, as claimed, fails: a snapshot without \<^verbatim>\<open>last_updated\<close> and a snapshot with one
  are reported identical, since the timestamps are compared only when both are present
  and non-empty.
\<close>

theorem compare_states_identical_counterexample:
  "is_identical (compare_states empty_state
      (empty_state\<lparr>last_updated := Some ''2024-01-01T00:00:00Z''\<rparr>)) \<and>
   last_updated empty_state \<noteq>
     last_updated (empty_state\<lparr>last_updated := Some ''2024-01-01T00:00:00Z''\<rparr>)"
  by (simp add: is_identical_compare_states get_posted_def get_count_def str_truthy_def
      empty_state_def)

text \<open>
  C6, amended. \<^verbatim>\<open>is_identical\<close> is true only when no configured category has a
  posted-set difference, none has a cycle-count difference, and the two
  \<^verbatim>\<open>last_updated\<close> fields match unless one of them is missing or empty.
\<close>

theorem compare_states_identical_only_when:
  assumes "is_identical (compare_states A B)"
  shows "(\<forall>c \<in> set plural_keys. set (get_posted A c) = set (get_posted B c)) \<and>
         (\<forall>c \<in> set plural_keys. get_count A c = get_count B c) \<and>
         (str_truthy (last_updated A) \<and> str_truthy (last_updated B) \<longrightarrow>
            last_updated A = last_updated B)"
  using assms unfolding is_identical_compare_states .

theorem compare_states_identical_only_when_witness:
  "is_identical (compare_states
      (empty_state\<lparr>posted := [''spells'' \<mapsto> [''a'', ''b'']],
                   last_updated := Some ''2024-01-01T00:00:00Z''\<rparr>)
      (empty_state\<lparr>posted := [''spells'' \<mapsto> [''b'', ''a'']],
                   last_updated := Some ''2024-01-01T00:00:00Z'',
                   cycle_count := Some [''spells'' \<mapsto> 0]\<rparr>)) \<and>
   set (get_posted (empty_state\<lparr>posted := [''spells'' \<mapsto> [''a'', ''b'']],
                   last_updated := Some ''2024-01-01T00:00:00Z''\<rparr>) ''spells'') =
   set (get_posted (empty_state\<lparr>posted := [''spells'' \<mapsto> [''b'', ''a'']],
                   last_updated := Some ''2024-01-01T00:00:00Z'',
                   cycle_count := Some [''spells'' \<mapsto> 0]\<rparr>) ''spells'')"
proof -
  let ?A = "empty_state\<lparr>posted := [''spells'' \<mapsto> [''a'', ''b'']],
                   last_updated := Some ''2024-01-01T00:00:00Z''\<rparr>"
  let ?B = "empty_state\<lparr>posted := [''spells'' \<mapsto> [''b'', ''a'']],
                   last_updated := Some ''2024-01-01T00:00:00Z'',
                   cycle_count := Some [''spells'' \<mapsto> 0]\<rparr>"
  have m: "''spells'' \<in> set plural_keys"
    by (simp add: plural_keys_eq)
  have i: "is_identical (compare_states ?A ?B)"
    by (auto simp: is_identical_compare_states get_posted_def get_count_def empty_state_def)
  from compare_states_identical_only_when [OF i] m
  have "set (get_posted ?A ''spells'') = set (get_posted ?B ''spells'')"
    by blast
  with i show ?thesis by blast
qed

subsection \<open>Migration\<close>

lemma posted_migrate_keys:
  "posted (migrate_keys cfg s) c =
     (case posted s c of Some v \<Rightarrow> Some v | None \<Rightarrow> if c = fst cfg then Some [] else None)"
  by (auto simp: migrate_keys_def Let_def split: option.splits)

lemma last_posted_migrate_keys:
  "last_posted (migrate_keys cfg s) c =
     (case last_posted s c of Some v \<Rightarrow> Some v
      | None \<Rightarrow> if c = snd cfg then Some None else None)"
  by (auto simp: migrate_keys_def Let_def split: option.splits)

lemma other_migrate_keys:
  "last_updated (migrate_keys cfg s) = last_updated s"
  "cycle_count (migrate_keys cfg s) = cycle_count s"
  by (simp_all add: migrate_keys_def Let_def)

lemma posted_fold_migrate_keys:
  "posted (fold migrate_keys cfgs s) c =
     (case posted s c of Some v \<Rightarrow> Some v
      | None \<Rightarrow> if c \<in> set (map fst cfgs) then Some [] else None)"
proof (induction cfgs arbitrary: s)
  case Nil
  then show ?case by (simp split: option.splits)
next
  case (Cons cfg cfgs)
  show ?case
    unfolding fold_simps Cons.IH posted_migrate_keys
    by (auto split: option.splits)
qed

lemma last_posted_fold_migrate_keys:
  "last_posted (fold migrate_keys cfgs s) c =
     (case last_posted s c of Some v \<Rightarrow> Some v
      | None \<Rightarrow> if c \<in> set (map snd cfgs) then Some None else None)"
proof (induction cfgs arbitrary: s)
  case Nil
  then show ?case by (simp split: option.splits)
next
  case (Cons cfg cfgs)
  show ?case
    unfolding fold_simps Cons.IH last_posted_migrate_keys
    by (auto split: option.splits)
qed

lemma other_fold_migrate_keys:
  "last_updated (fold migrate_keys cfgs s) = last_updated s"
  "cycle_count (fold migrate_keys cfgs s) = cycle_count s"
  by (induction cfgs arbitrary: s) (simp_all add: other_migrate_keys)

lemma fold_migrate_count:
  "fold migrate_count cs cc c =
     (case cc c of Some n \<Rightarrow> Some n | None \<Rightarrow> if c \<in> set cs then Some 0 else None)"
proof (induction cs arbitrary: cc)
  case Nil
  then show ?case by (simp split: option.splits)
next
  case (Cons k cs)
  show ?case
    unfolding fold_simps Cons.IH
    by (auto simp: migrate_count_def split: option.splits)
qed

lemma posted_migrate_state:
  "posted (migrate_state s) c =
     (case posted s c of Some v \<Rightarrow> Some v
      | None \<Rightarrow> if c \<in> set plural_keys then Some [] else None)"
  by (simp add: migrate_state_def Let_def posted_fold_migrate_keys plural_keys_def)

lemma last_posted_migrate_state:
  "last_posted (migrate_state s) c =
     (case last_posted s c of Some v \<Rightarrow> Some v
      | None \<Rightarrow> if c \<in> set singular_values then Some None else None)"
  by (simp add: migrate_state_def Let_def last_posted_fold_migrate_keys singular_values_def)

lemma last_updated_migrate_state:
  "last_updated (migrate_state s) = last_updated s"
  by (simp add: migrate_state_def Let_def other_fold_migrate_keys)

lemma cycle_count_migrate_state:
  "cycle_count (migrate_state s) = Some (fold migrate_count plural_keys (counts_of s))"
  by (simp add: migrate_state_def Let_def other_fold_migrate_keys counts_of_def)

lemma counts_of_migrate_state:
  "counts_of (migrate_state s) c =
     (case counts_of s c of Some n \<Rightarrow> Some n
      | None \<Rightarrow> if c \<in> set plural_keys then Some 0 else None)"
  by (simp add: counts_of_def cycle_count_migrate_state fold_migrate_count)

lemma migrate_state_twice: "migrate_state (migrate_state s) = migrate_state s"
proof (rule state.equality)
  show "posted (migrate_state (migrate_state s)) = posted (migrate_state s)"
    by (rule ext) (simp add: posted_migrate_state split: option.splits)
  show "last_posted (migrate_state (migrate_state s)) = last_posted (migrate_state s)"
    by (rule ext) (simp add: last_posted_migrate_state split: option.splits)
  show "last_updated (migrate_state (migrate_state s)) = last_updated (migrate_state s)"
    by (simp add: last_updated_migrate_state)
  have "fold migrate_count plural_keys (counts_of (migrate_state s)) =
        fold migrate_count plural_keys (counts_of s)"
    by (rule ext) (simp add: fold_migrate_count counts_of_migrate_state split: option.splits)
  then show "cycle_count (migrate_state (migrate_state s)) = cycle_count (migrate_state s)"
    by (simp add: cycle_count_migrate_state)
  show "state.more (migrate_state (migrate_state s)) = state.more (migrate_state s)"
    by simp
qed

text \<open>
  C9. Migrating twice gives what migrating once gives. Migration is additive: a posted
  list, a last-posted value and a counter that the snapshot holds are kept as they are,
  \<^verbatim>\<open>last_updated\<close> is not touched, and a missing one is filled, for the configured
  categories only, with the empty list, \<^verbatim>\<open>None\<close> and zero.
\<close>

theorem migrate_state_idempotent_additive:
  "migrate_state (migrate_state s) = migrate_state s \<and>
   posted (migrate_state s) c =
     (case posted s c of Some v \<Rightarrow> Some v
      | None \<Rightarrow> if c \<in> set plural_keys then Some [] else None) \<and>
   last_posted (migrate_state s) c =
     (case last_posted s c of Some v \<Rightarrow> Some v
      | None \<Rightarrow> if c \<in> set singular_values then Some None else None) \<and>
   last_updated (migrate_state s) = last_updated s \<and>
   cycle_count (migrate_state s) \<noteq> None \<and>
   counts_of (migrate_state s) c =
     (case counts_of s c of Some n \<Rightarrow> Some n
      | None \<Rightarrow> if c \<in> set plural_keys then Some 0 else None)"
  by (simp add: migrate_state_twice posted_migrate_state last_posted_migrate_state
      last_updated_migrate_state counts_of_migrate_state cycle_count_migrate_state)

theorem migrate_state_idempotent_additive_witness:
  "posted (migrate_state
      (empty_state\<lparr>posted := [''spells'' \<mapsto> [''a'']],
                   cycle_count := Some [''spells'' \<mapsto> 3]\<rparr>)) ''spells'' = Some [''a''] \<and>
   posted (migrate_state
      (empty_state\<lparr>posted := [''spells'' \<mapsto> [''a'']],
                   cycle_count := Some [''spells'' \<mapsto> 3]\<rparr>)) ''potions'' = Some [] \<and>
   counts_of (migrate_state
      (empty_state\<lparr>posted := [''spells'' \<mapsto> [''a'']],
                   cycle_count := Some [''spells'' \<mapsto> 3]\<rparr>)) ''spells'' = Some 3 \<and>
   counts_of (migrate_state
      (empty_state\<lparr>posted := [''spells'' \<mapsto> [''a'']],
                   cycle_count := Some [''spells'' \<mapsto> 3]\<rparr>)) ''potions'' = Some 0"
proof -
  let ?s = "empty_state\<lparr>posted := [''spells'' \<mapsto> [''a'']],
                   cycle_count := Some [''spells'' \<mapsto> 3]\<rparr>"
  have p: "''potions'' \<in> set plural_keys"
    by (simp add: plural_keys_eq)
  have a: "posted ?s ''spells'' = Some [''a'']" "posted ?s ''potions'' = None"
    "counts_of ?s ''spells'' = Some 3" "counts_of ?s ''potions'' = None"
    by (simp_all add: empty_state_def counts_of_def)
  from migrate_state_idempotent_additive [of ?s "''spells''"]
       migrate_state_idempotent_additive [of ?s "''potions''"] p
  show ?thesis
    unfolding a by simp
qed

subsection \<open>Pull mode: the stale-overwrite guard\<close>

text \<open>
  The guard compares the two \<^verbatim>\<open>last_updated\<close> strings. Whenever the remote string is
  smaller than the local one and the snapshots are not identical, a pull without
  \<^verbatim>\<open>force\<close> returns failure and leaves both files as they were.
\<close>

lemma sync_from_gist_guard_on_strings:
  assumes "local_state = (case local_file fs of Some st \<Rightarrow> st | None \<Rightarrow> create_initial_state now)"
    and "get_last_updated gist_state < get_last_updated local_state"
    and "\<not> is_identical (compare_states gist_state local_state)"
  shows "sync_from_gist (Some gist_state) now copy_ok False dry_run fs = (False, fs)"
  using assms by (simp add: sync_from_gist_def Let_def)

text \<open>
  The order of the strings is not the order of the instants. The program stamps a
  snapshot with \<^verbatim>\<open>isoformat\<close>, which leaves the fraction out when the microsecond is
  zero, so a stamp taken on the whole second ends in \<^verbatim>\<open>00Z\<close> and one taken half a
  second later in \<^verbatim>\<open>00.500000Z\<close>; as strings the earlier stamp is the greater one.
\<close>

lemma utc_stamp_whole_second:
  "utc_stamp \<lparr>dt_year = 2024, dt_month = 1, dt_day = 1, dt_hour = 0, dt_minute = 0,
      dt_second = 0, dt_microsecond = 0\<rparr> = ''2024-01-01T00:00:00Z''"
  by (simp add: utc_stamp_def isoformat_def pad2_def pad4_def digit_def)

lemma utc_stamp_half_second:
  "utc_stamp \<lparr>dt_year = 2024, dt_month = 1, dt_day = 1, dt_hour = 0, dt_minute = 0,
      dt_second = 0, dt_microsecond = 500000\<rparr> = ''2024-01-01T00:00:00.500000Z''"
  by (simp add: utc_stamp_def isoformat_def pad2_def pad4_def pad6_def digit_def)

lemma stamps_string_order:
  "\<not> (''2024-01-01T00:00:00Z'' :: string) < ''2024-01-01T00:00:00.500000Z''"
  by simp

text \<open>
  C8. A pull without \<^verbatim>\<open>force\<close> should fail and write nothing when the remote
  snapshot is older than a local snapshot that differs from it. Here the remote snapshot
  was stamped on the whole second and the local one, which holds one more posted id, half
  a second later: the call returns success, copies the local file to the backup and
  overwrites the local file with the older remote snapshot.
\<close>

theorem sync_from_gist_overwrites_newer_local:
  "dt_fields \<lparr>dt_year = 2024, dt_month = 1, dt_day = 1, dt_hour = 0, dt_minute = 0,
      dt_second = 0, dt_microsecond = 0\<rparr> <
   dt_fields \<lparr>dt_year = 2024, dt_month = 1, dt_day = 1, dt_hour = 0, dt_minute = 0,
      dt_second = 0, dt_microsecond = 500000\<rparr> \<and>
   sync_from_gist
     (Some (empty_state\<lparr>posted := [''spells'' \<mapsto> [''a'']],
        last_updated := Some (utc_stamp \<lparr>dt_year = 2024, dt_month = 1, dt_day = 1, dt_hour = 0,
          dt_minute = 0, dt_second = 0, dt_microsecond = 0\<rparr>)\<rparr>))
     ''2024-03-01T00:00:00Z'' True False False
     \<lparr>local_file = Some (empty_state\<lparr>posted := [''spells'' \<mapsto> [''a'', ''b'']],
        last_updated := Some (utc_stamp \<lparr>dt_year = 2024, dt_month = 1, dt_day = 1, dt_hour = 0,
          dt_minute = 0, dt_second = 0, dt_microsecond = 500000\<rparr>)\<rparr>),
      backup_file = None\<rparr> =
   (True,
    \<lparr>local_file = Some (empty_state\<lparr>posted := [''spells'' \<mapsto> [''a'']],
        last_updated := Some (utc_stamp \<lparr>dt_year = 2024, dt_month = 1, dt_day = 1, dt_hour = 0,
          dt_minute = 0, dt_second = 0, dt_microsecond = 0\<rparr>)\<rparr>),
     backup_file = Some (empty_state\<lparr>posted := [''spells'' \<mapsto> [''a'', ''b'']],
        last_updated := Some (utc_stamp \<lparr>dt_year = 2024, dt_month = 1, dt_day = 1, dt_hour = 0,
          dt_minute = 0, dt_second = 0, dt_microsecond = 500000\<rparr>)\<rparr>)\<rparr>)"
proof -
  let ?g = "empty_state\<lparr>posted := [''spells'' \<mapsto> [''a'']],
        last_updated := Some ''2024-01-01T00:00:00Z''\<rparr>"
  let ?l = "empty_state\<lparr>posted := [''spells'' \<mapsto> [''a'', ''b'']],
        last_updated := Some ''2024-01-01T00:00:00.500000Z''\<rparr>"
  have older: "dt_fields \<lparr>dt_year = 2024, dt_month = 1, dt_day = 1, dt_hour = 0, dt_minute = 0,
      dt_second = 0, dt_microsecond = 0\<rparr> <
   dt_fields \<lparr>dt_year = 2024, dt_month = 1, dt_day = 1, dt_hour = 0, dt_minute = 0,
      dt_second = 0, dt_microsecond = 500000\<rparr>"
    by (simp add: dt_fields_def)
  have truthy: "state_truthy ?g"
    by (simp add: state_truthy_def empty_state_def)
  have differ: "\<not> is_identical (compare_states ?g ?l)"
    by (simp add: compare_states_def Let_def compare_timestamp_def is_identical_fold_compare_count
        is_identical_fold_compare_posted)
  have m: "''spells'' \<in> set plural_keys"
    by (simp add: plural_keys_eq)
  have noconf: "\<not> has_conflict (compare_states ?g ?l)"
    by (simp add: has_conflict_compare_states diff_list_nonempty get_posted_def empty_state_def)
  have run: "sync_from_gist (Some ?g) ''2024-03-01T00:00:00Z'' True False False
       \<lparr>local_file = Some ?l, backup_file = None\<rparr> =
     (True, \<lparr>local_file = Some ?g, backup_file = Some ?l\<rparr>)"
    using truthy differ noconf
    by (simp add: sync_from_gist_def Let_def backup_local_state_def get_last_updated_def
        empty_state_def)
  from older run show ?thesis
    unfolding utc_stamp_whole_second utc_stamp_half_second by blast
qed

subsection \<open>The retrying client\<close>

text \<open>
  Statuses 401, 403, 404 and every status the code does not classify end the call on the
  attempt that received them: one more request is counted and nothing is slept.
\<close>

lemma retry_loop_auth:
  "call attempt = Response status_code hdr \<Longrightarrow> status_code = 401 \<or> status_code = 403 \<Longrightarrow>
     retry_loop call (attempt # rest) retry_delay eff =
       (Inl GistAuthenticationError, eff\<lparr>requests := requests eff + 1\<rparr>)"
  by (auto simp: Let_def)

lemma retry_loop_not_found:
  "call attempt = Response 404 hdr \<Longrightarrow>
     retry_loop call (attempt # rest) retry_delay eff =
       (Inl GistNotFoundError, eff\<lparr>requests := requests eff + 1\<rparr>)"
  by (simp add: Let_def)

lemma retry_loop_unclassified:
  "call attempt = Response status_code hdr \<Longrightarrow>
   status_code \<notin> {200, 201, 401, 403, 404, 429} \<Longrightarrow> status_code < 500 \<Longrightarrow>
     retry_loop call (attempt # rest) retry_delay eff =
       (Inl GistAPIError, eff\<lparr>requests := requests eff + 1\<rparr>)"
  by (simp add: Let_def)

text \<open>
  A retryable outcome on an attempt that is not the last one: the client sleeps once and
  goes on with the remaining attempts, with a delay that is still not negative.
\<close>

lemma next_delay_nonneg: "0 \<le> retry_delay \<Longrightarrow> 0 \<le> next_delay out retry_delay"
  by (auto simp: next_delay_def GIST_API_RETRY_BACKOFF_def split: outcome.splits)

lemma next_delay_le:
  "0 \<le> retry_delay \<Longrightarrow> next_delay out retry_delay \<le> 2 * retry_delay"
  by (auto simp: next_delay_def GIST_API_RETRY_BACKOFF_def split: outcome.splits)

lemma retry_loop_continue:
  assumes "int attempt < int GIST_API_MAX_RETRIES - 1"
    and "retryable (call attempt)" and "header_sleepable (call attempt)"
    and "0 \<le> retry_delay" and "retry_delay \<le> sleep_max"
  shows "retry_loop call (attempt # rest) retry_delay eff =
           retry_loop call rest (next_delay (call attempt) retry_delay)
             (eff\<lparr>requests := requests eff + 1,
                  sleeps := sleeps eff @ [sleep_secs (call attempt) retry_delay]\<rparr>)"
proof (cases "call attempt")
  case (Response status_code hdr)
  show ?thesis
  proof (cases "status_code = 429")
    case True
    with assms Response show ?thesis
      by (cases hdr)
        (simp_all add: Let_def sleep_def sleep_max_def header_sleepable_def next_delay_def
          sleep_secs_def)
  next
    case False
    with assms Response have "status_code \<ge> 500"
      by (simp add: retryable_def)
    with assms Response False show ?thesis
      by (simp add: Let_def sleep_def sleep_max_def next_delay_def sleep_secs_def)
  qed
next
  case Timeout
  with assms show ?thesis
    by (simp add: Let_def sleep_def sleep_max_def next_delay_def sleep_secs_def)
next
  case ConnectionError
  with assms show ?thesis
    by (simp add: Let_def sleep_def sleep_max_def next_delay_def sleep_secs_def)
next
  case RequestException
  with assms show ?thesis by (simp add: retryable_def)
qed

text \<open>A retryable outcome on the last attempt raises the typed error that belongs to it.\<close>

lemma retry_loop_last:
  assumes "\<not> int attempt < int GIST_API_MAX_RETRIES - 1"
    and "retryable (call attempt)" and "header_parses (call attempt)"
  shows "\<exists>e. raised_for (call attempt) e \<and>
           retry_loop call (attempt # rest) retry_delay eff =
             (Inl e, eff\<lparr>requests := requests eff + 1\<rparr>)"
proof (cases "call attempt")
  case (Response status_code hdr)
  show ?thesis
  proof (cases "status_code = 429")
    case True
    with assms Response show ?thesis
      by (cases hdr) (auto simp: Let_def raised_for_def header_parses_def)
  next
    case False
    with assms Response have "status_code \<ge> 500"
      by (simp add: retryable_def)
    with assms Response False show ?thesis
      by (auto simp: Let_def raised_for_def)
  qed
next
  case Timeout
  with assms show ?thesis by (auto simp: Let_def raised_for_def)
next
  case ConnectionError
  with assms show ?thesis by (auto simp: Let_def raised_for_def)
next
  case RequestException
  with assms show ?thesis by (simp add: retryable_def)
qed

text \<open>
  When all three attempts end in a retryable outcome and every \<^verbatim>\<open>Retry-After\<close> header
  is usable, the call issues three requests, sleeps twice and raises the typed error of
  the last outcome.
\<close>

lemma gist_api_call_exhausted:
  assumes "\<forall>i < GIST_API_MAX_RETRIES. retryable (call i)"
    and "header_sleepable (call 0)" and "header_sleepable (call 1)" and "header_parses (call 2)"
  shows "\<exists>e eff. gist_api_call_with_retry call = (Inl e, eff) \<and> raised_for (call 2) e \<and>
           requests eff = 3 \<and>
           sleeps eff = [sleep_secs (call 0) GIST_API_RETRY_DELAY,
                         sleep_secs (call 1) (next_delay (call 0) GIST_API_RETRY_DELAY)]"
proof -
  let ?d1 = "next_delay (call 0) GIST_API_RETRY_DELAY"
  let ?d2 = "next_delay (call 1) ?d1"
  let ?e0 = "\<lparr>requests = 0, sleeps = []\<rparr>"
  let ?e1 = "?e0\<lparr>requests := requests ?e0 + 1,
      sleeps := sleeps ?e0 @ [sleep_secs (call 0) GIST_API_RETRY_DELAY]\<rparr>"
  let ?e2 = "?e1\<lparr>requests := requests ?e1 + 1, sleeps := sleeps ?e1 @ [sleep_secs (call 1) ?d1]\<rparr>"
  have r: "retryable (call 0)" "retryable (call 1)" "retryable (call 2)"
    using assms(1) by (simp_all add: GIST_API_MAX_RETRIES_def)
  have up: "[0..<GIST_API_MAX_RETRIES] = [0, 1, 2]"
    by (simp add: GIST_API_MAX_RETRIES_def upt_rec)
  have m0: "int 0 < int GIST_API_MAX_RETRIES - 1" and m1: "int 1 < int GIST_API_MAX_RETRIES - 1"
    and m2: "\<not> int 2 < int GIST_API_MAX_RETRIES - 1"
    by (simp_all add: GIST_API_MAX_RETRIES_def)
  have d0: "0 \<le> GIST_API_RETRY_DELAY"
    by (simp add: GIST_API_RETRY_DELAY_def)
  have d1: "0 \<le> ?d1"
    by (rule next_delay_nonneg [OF d0])
  have b0: "GIST_API_RETRY_DELAY \<le> sleep_max"
    by (simp add: GIST_API_RETRY_DELAY_def sleep_max_def)
  have b1: "?d1 \<le> sleep_max"
    using next_delay_le [OF d0, of "call 0"]
    by (simp add: GIST_API_RETRY_DELAY_def sleep_max_def)
  have 1: "retry_loop call [0, 1, 2] GIST_API_RETRY_DELAY ?e0 = retry_loop call [1, 2] ?d1 ?e1"
    using m0 r(1) assms(2) d0 b0
    by (rule retry_loop_continue [where call = call and attempt = 0])
  have 2: "retry_loop call [1, 2] ?d1 ?e1 = retry_loop call [2] ?d2 ?e2"
    using m1 r(2) assms(3) d1 b1
    by (rule retry_loop_continue [where call = call and attempt = 1])
  from retry_loop_last [where call = call and attempt = 2 and rest = "[]" and retry_delay = ?d2
      and eff = ?e2, OF m2 r(3) assms(4)]
  obtain e where 3: "raised_for (call 2) e"
    "retry_loop call [2] ?d2 ?e2 = (Inl e, ?e2\<lparr>requests := requests ?e2 + 1\<rparr>)"
    by blast
  have "gist_api_call_with_retry call = (Inl e, ?e2\<lparr>requests := requests ?e2 + 1\<rparr>)"
    unfolding gist_api_call_with_retry_def up 1 2 3(2) ..
  with 3(1) show ?thesis by simp
qed

text \<open>
  A \<^verbatim>\<open>Retry-After\<close> value too large for \<^verbatim>\<open>time.sleep\<close> ends the call with
  \<^verbatim>\<open>OverflowError\<close> on the attempt that received it.
\<close>

lemma gist_api_call_rate_limit_overflow:
  "gist_api_call_with_retry (\<lambda>attempt. Response 429 (Seconds 10000000000)) =
     (Inl OverflowError, \<lparr>requests = 1, sleeps = []\<rparr>)"
  by (simp add: gist_api_call_with_retry_def GIST_API_MAX_RETRIES_def upt_rec Let_def sleep_def
      sleep_max_def)

text \<open>
  The spec's retry example: two 503 responses and then a 200. The call returns the 200
  response after three requests, having slept the initial delay and then the delay times
  the backoff factor.
\<close>

lemma gist_api_call_two_503_then_200:
  "gist_api_call_with_retry (\<lambda>attempt. if attempt < 2 then Response 503 NoHeader
                                          else Response 200 NoHeader) =
     (Inr 200, \<lparr>requests = 3, sleeps = [1, 2]\<rparr>)"
  by (simp add: gist_api_call_with_retry_def GIST_API_MAX_RETRIES_def upt_rec Let_def sleep_def
      sleep_max_def GIST_API_RETRY_DELAY_def GIST_API_RETRY_BACKOFF_def)

text \<open>
  C7. Exhausting the attempts should raise the typed error of the failure. A 429 response
  whose \<^verbatim>\<open>Retry-After\<close> header is not an integer makes the call raise
  \<^verbatim>\<open>ValueError\<close> instead, on the attempt that received it; and a negative integer in
  the header does the same through \<^verbatim>\<open>time.sleep\<close>.
\<close>

theorem gist_api_call_rate_limit_header:
  "gist_api_call_with_retry (\<lambda>attempt. Response 429 NotInteger) =
     (Inl ValueError, \<lparr>requests = 1, sleeps = []\<rparr>) \<and>
   gist_api_call_with_retry (\<lambda>attempt. Response 429 (Seconds (- 1))) =
     (Inl ValueError, \<lparr>requests = 1, sleeps = []\<rparr>)"
  by (simp add: gist_api_call_with_retry_def GIST_API_MAX_RETRIES_def upt_rec Let_def sleep_def
      sleep_max_def)

subsection \<open>The validator's timestamp check\<close>

text \<open>
  \<^verbatim>\<open>now.replace(minute=now.minute + 5)\<close> asks for a minute of 60 or more during the
  last five minutes of every hour, and \<^verbatim>\<open>now.replace(year=now.year - 1)\<close> asks for
  29 February of a year that is not a leap year on every 29 February. Both raise
  \<^verbatim>\<open>ValueError\<close> before the check has looked at the state.
\<close>

lemma replace_minute_late:
  "55 \<le> dt_minute now \<Longrightarrow>
     replace_minute now (dt_minute now + TIMESTAMP_FUTURE_TOLERANCE_MINUTES) = Inl ValueError"
  by (simp add: replace_minute_def valid_datetime_def TIMESTAMP_FUTURE_TOLERANCE_MINUTES_def)

lemma validate_timestamps_late_in_hour:
  "55 \<le> dt_minute now \<Longrightarrow> validate_timestamps fromisoformat now s = Inl ValueError"
  by (auto simp: validate_timestamps_def replace_minute_late replace_year_def Let_def
      split: sum.splits if_splits)

lemma validate_timestamps_leap_day:
  "validate_timestamps fromisoformat
     \<lparr>dt_year = 2024, dt_month = 2, dt_day = 29, dt_hour = 10, dt_minute = 0, dt_second = 0,
      dt_microsecond = 0\<rparr> s = Inl ValueError"
  by (simp add: validate_timestamps_def replace_year_def valid_datetime_def days_in_month_def
      is_leap_def TIMESTAMP_PAST_TOLERANCE_YEARS_def)

text \<open>
  A \<^verbatim>\<open>last_updated\<close> string without a UTC offset parses to a naive datetime, and
  comparing it with the aware \<^verbatim>\<open>future_tolerance\<close> raises \<^verbatim>\<open>TypeError\<close>, which the
  \<^verbatim>\<open>except (ValueError, AttributeError)\<close> clause does not catch.
\<close>

lemma validate_timestamps_naive_last_updated:
  "fromisoformat ''2024-05-01T10:00:00'' = Naive d \<Longrightarrow>
   validate_timestamps fromisoformat
     \<lparr>dt_year = 2024, dt_month = 5, dt_day = 1, dt_hour = 10, dt_minute = 30, dt_second = 0,
      dt_microsecond = 0\<rparr>
     (empty_state\<lparr>last_updated := Some ''2024-05-01T10:00:00''\<rparr>) = Inl TypeError"
  by (simp add: validate_timestamps_def replace_year_def replace_minute_def valid_datetime_def
      days_in_month_def TIMESTAMP_PAST_TOLERANCE_YEARS_def TIMESTAMP_FUTURE_TOLERANCE_MINUTES_def
      check_last_updated_def str_truthy_def get_last_updated_def replace_Z_def dt_greater_def
      empty_state_def)

text \<open>
  C4. The check should return its findings and never raise. Run at 10:57 UTC on
  1 May 2024, on any state and with any parser, \<^verbatim>\<open>validate_timestamps\<close> raises
  \<^verbatim>\<open>ValueError\<close>.
\<close>

theorem validate_timestamps_raises_at_minute_57:
  "validate_timestamps fromisoformat
     \<lparr>dt_year = 2024, dt_month = 5, dt_day = 1, dt_hour = 10, dt_minute = 57, dt_second = 0,
      dt_microsecond = 0\<rparr> s = Inl ValueError"
  by (simp add: validate_timestamps_late_in_hour)

text \<open>
  With a valid clock reading before minute 55 and away from 29 February, the check of a
  fresh snapshot returns a passing result: the model does return findings where the code
  does.
\<close>

lemma validate_timestamps_fresh_passes:
  "fromisoformat ''2024-05-01T10:00:00+00:00'' =
     Aware \<lparr>dt_year = 2024, dt_month = 5, dt_day = 1, dt_hour = 10, dt_minute = 0,
            dt_second = 0, dt_microsecond = 0\<rparr> \<Longrightarrow>
   validate_timestamps fromisoformat
     \<lparr>dt_year = 2024, dt_month = 5, dt_day = 1, dt_hour = 10, dt_minute = 30, dt_second = 0,
      dt_microsecond = 0\<rparr>
     (create_initial_state ''2024-05-01T10:00:00Z'') =
   Inr \<lparr>passed = True, warning = False, issues = [], warnings = []\<rparr>"
  by (simp add: validate_timestamps_def replace_year_def replace_minute_def valid_datetime_def
      days_in_month_def TIMESTAMP_PAST_TOLERANCE_YEARS_def TIMESTAMP_FUTURE_TOLERANCE_MINUTES_def
      check_last_updated_def str_truthy_def get_last_updated_def replace_Z_def dt_greater_def
      dt_less_def dt_fields_def create_initial_state_def CATEGORY_CONFIG_def
      check_last_posted_def get_last_def singular_values_eq)

end
